theory Spec2Isabelle
  imports Complex_Main "HOL-Library.AList" "HOL-Library.Sublist"
begin

section \<open>Strings\<close>

text \<open>
  Python strings are modelled as \<^typ>\<open>string\<close>: a character is a code point below 256.
  The character predicates and the case mappings below are Python's on these code
  points. Two of them have an upper-case form that is no such code point (U+00B5 and
  U+00FF, whose upper-case forms are U+039C and U+0178); see \<open>upper\<close>.
\<close>

definition ascii_lowercase :: string where
  "ascii_lowercase = ''abcdefghijklmnopqrstuvwxyz''"

definition ascii_uppercase :: string where
  "ascii_uppercase = ''ABCDEFGHIJKLMNOPQRSTUVWXYZ''"

definition digits :: string where
  "digits = ''0123456789''"

text \<open>
  The cased letters from U+00C0 on: U+00C0 to U+00DE without the sign U+00D7 are upper
  case, and each has its lower-case form 32 places later.
\<close>

definition latin1_uppercase :: string where
  "latin1_uppercase =
     [CHR 0xC0, CHR 0xC1, CHR 0xC2, CHR 0xC3, CHR 0xC4, CHR 0xC5, CHR 0xC6, CHR 0xC7,
      CHR 0xC8, CHR 0xC9, CHR 0xCA, CHR 0xCB, CHR 0xCC, CHR 0xCD, CHR 0xCE, CHR 0xCF,
      CHR 0xD0, CHR 0xD1, CHR 0xD2, CHR 0xD3, CHR 0xD4, CHR 0xD5, CHR 0xD6,
      CHR 0xD8, CHR 0xD9, CHR 0xDA, CHR 0xDB, CHR 0xDC, CHR 0xDD, CHR 0xDE]"

definition latin1_lowercase :: string where
  "latin1_lowercase =
     [CHR 0xE0, CHR 0xE1, CHR 0xE2, CHR 0xE3, CHR 0xE4, CHR 0xE5, CHR 0xE6, CHR 0xE7,
      CHR 0xE8, CHR 0xE9, CHR 0xEA, CHR 0xEB, CHR 0xEC, CHR 0xED, CHR 0xEE, CHR 0xEF,
      CHR 0xF0, CHR 0xF1, CHR 0xF2, CHR 0xF3, CHR 0xF4, CHR 0xF5, CHR 0xF6,
      CHR 0xF8, CHR 0xF9, CHR 0xFA, CHR 0xFB, CHR 0xFC, CHR 0xFD, CHR 0xFE]"

text \<open>
  \<^verbatim>\<open>str.lower()\<close>, character by character: an upper-case letter becomes its lower-case
  form, every other character stays.
\<close>

definition lower_char :: "char \<Rightarrow> char" where
  "lower_char c =
     (case map_of (zip (ascii_uppercase @ latin1_uppercase)
                       (ascii_lowercase @ latin1_lowercase)) c of
        Some d \<Rightarrow> d | None \<Rightarrow> c)"

definition lower :: "string \<Rightarrow> string" where
  "lower s = map lower_char s"

text \<open>
  \<^verbatim>\<open>str.upper()\<close>: a lower-case letter becomes its upper-case form, U+00DF becomes
  \<^verbatim>\<open>SS\<close>, and the rest stays. U+00B5 and U+00FF stay too, where Python gives U+039C
  and U+0178: \<open>upper s\<close> is \<^verbatim>\<open>s.upper()\<close> for every \<open>s\<close> without these two, and for any
  other \<open>s\<close> the two strings have the same length and differ only where one of the two
  stands, by one character outside ASCII for another. The model uses \<open>upper\<close> where the
  source looks for the ASCII substrings \<^verbatim>\<open>P-\<close> and \<^verbatim>\<open>FP-\<close>, and nowhere else.
\<close>

definition upper_char :: "char \<Rightarrow> string" where
  "upper_char c =
     (if c = CHR 0xDF then ''SS''
      else case map_of (zip (ascii_lowercase @ latin1_lowercase)
                            (ascii_uppercase @ latin1_uppercase)) c of
             Some d \<Rightarrow> [d] | None \<Rightarrow> [c])"

definition upper :: "string \<Rightarrow> string" where
  "upper s = concat (map upper_char s)"

text \<open>The character class \<^verbatim>\<open>[a-z0-9]\<close> and the single character \<^verbatim>\<open>-\<close>.\<close>

definition is_a_z_0_9 :: "char \<Rightarrow> bool" where
  "is_a_z_0_9 c = (c \<in> set (ascii_lowercase @ digits))"

definition is_dash :: "char \<Rightarrow> bool" where
  "is_dash c = (c = CHR ''-'')"

text \<open>
  \<^verbatim>\<open>re.sub(r'C+', '-', s)\<close> for a character class \<open>C\<close>: scanning from the left, every
  maximal run of characters of the class is replaced by one \<^verbatim>\<open>-\<close>; the other
  characters are copied.
\<close>

function re_sub_runs :: "(char \<Rightarrow> bool) \<Rightarrow> string \<Rightarrow> string" where
  "re_sub_runs C [] = []"
| "re_sub_runs C (c # cs) =
     (if C c then CHR ''-'' # re_sub_runs C (dropWhile C cs)
      else c # re_sub_runs C cs)"
  by pat_completeness auto
termination
  by (relation "measure (\<lambda>(C, s). length s)")
     (auto simp: le_imp_less_Suc length_dropWhile_le)

text \<open>\<^verbatim>\<open>s.strip('-')\<close>: leading and trailing dashes are removed.\<close>

definition strip_dashes :: "string \<Rightarrow> string" where
  "strip_dashes s = rev (dropWhile is_dash (rev (dropWhile is_dash s)))"

text \<open>
  \<^verbatim>\<open>
  def slugify(s):
      s = s.lower()
      s = re.sub(r'[^a-z0-9]+', '-', s)
      s = re.sub(r'-+', '-', s)
      return s.strip('-')
  \<close>
\<close>

definition slugify :: "string \<Rightarrow> string" where
  "slugify s =
     (let s = lower s;
          s = re_sub_runs (\<lambda>c. \<not> is_a_z_0_9 c) s;
          s = re_sub_runs is_dash s
      in strip_dashes s)"

text \<open>\<^verbatim>\<open>sub in s\<close> on strings: \<open>sub\<close> occurs in \<open>s\<close> as a contiguous substring.\<close>

fun py_in :: "string \<Rightarrow> string \<Rightarrow> bool" where
  "py_in sub [] = (sub = [])"
| "py_in sub (c # cs) = (take (length sub) (c # cs) = sub \<or> py_in sub cs)"

text \<open>
  \<^verbatim>\<open>s.replace(old, new)\<close>: every occurrence of \<open>old\<close> is replaced, scanning from the
  left and continuing after each replaced occurrence. With an empty \<open>old\<close>, Python puts
  \<open>new\<close> before every character and at the end.
\<close>

function replace_from :: "string \<Rightarrow> string \<Rightarrow> string \<Rightarrow> string" where
  "replace_from old new [] = []"
| "replace_from old new (c # cs) =
     (if old \<noteq> [] \<and> prefix old (c # cs)
      then new @ replace_from old new (drop (length old) (c # cs))
      else c # replace_from old new cs)"
  by pat_completeness auto
termination
  by (relation "measure (\<lambda>(old, new, s). length s)") auto

definition py_replace :: "string \<Rightarrow> string \<Rightarrow> string \<Rightarrow> string" where
  "py_replace s old new =
     (if old = [] then new @ concat (map (\<lambda>c. c # new) s) else replace_from old new s)"

text \<open>
  White space as \<^verbatim>\<open>str.strip()\<close> sees it (the characters on which \<^verbatim>\<open>str.isspace()\<close>
  holds), and \<^verbatim>\<open>str.strip()\<close>.
\<close>

definition is_space :: "char \<Rightarrow> bool" where
  "is_space c = (c \<in> set [CHR 0x09, CHR 0x0A, CHR 0x0B, CHR 0x0C, CHR 0x0D,
                            CHR 0x1C, CHR 0x1D, CHR 0x1E, CHR 0x1F, CHR 0x20,
                            CHR 0x85, CHR 0xA0])"

definition strip :: "string \<Rightarrow> string" where
  "strip s = rev (dropWhile is_space (rev (dropWhile is_space s)))"

text \<open>
  \<^verbatim>\<open>str.isdigit()\<close>: the string is not empty and every character is a digit. The
  superscripts U+00B2, U+00B3 and U+00B9 are digits for \<^verbatim>\<open>isdigit\<close>; they are no decimal
  digits, and \<^verbatim>\<open>int()\<close> does not accept them.
\<close>

definition is_decimal :: "char \<Rightarrow> bool" where
  "is_decimal c = (c \<in> set digits)"

definition is_digit :: "char \<Rightarrow> bool" where
  "is_digit c = (c \<in> set (digits @ [CHR 0xB2, CHR 0xB3, CHR 0xB9]))"

definition isdigit :: "string \<Rightarrow> bool" where
  "isdigit s = (s \<noteq> [] \<and> (\<forall>c \<in> set s. is_digit c))"

text \<open>
  \<^verbatim>\<open>int(s)\<close> on a string. The white space that \<^verbatim>\<open>int()\<close> drops around the literal is
  not that of \<^verbatim>\<open>str.strip()\<close>: U+001C to U+001F are not dropped. One sign may precede the
  digits, and single underscores may stand between digits. A literal of more than 4300
  digits is refused (the default of \<^verbatim>\<open>sys.get_int_max_str_digits()\<close>, CPython 3.11);
  underscores, the sign and the white space do not count. Every refusal is
  \<^verbatim>\<open>ValueError\<close>, which is \<open>None\<close> here.
\<close>

definition is_int_space :: "char \<Rightarrow> bool" where
  "is_int_space c = (c \<in> set [CHR 0x09, CHR 0x0A, CHR 0x0B, CHR 0x0C, CHR 0x0D, CHR 0x20,
                                CHR 0x85, CHR 0xA0])"

definition int_strip :: "string \<Rightarrow> string" where
  "int_strip s = rev (dropWhile is_int_space (rev (dropWhile is_int_space s)))"

definition int_max_str_digits :: nat where
  "int_max_str_digits = 4300"

definition digit_val :: "char \<Rightarrow> int" where
  "digit_val c = int (of_char c) - 48"

fun digits_ok :: "string \<Rightarrow> bool" where
  "digits_ok [] = False"
| "digits_ok [c] = is_decimal c"
| "digits_ok (c # d # cs) =
     (is_decimal c \<and> (if d = CHR ''_'' then digits_ok cs else digits_ok (d # cs)))"

definition digits_value :: "string \<Rightarrow> int" where
  "digits_value ds = foldl (\<lambda>acc c. 10 * acc + digit_val c) 0 ds"

definition parse_digits :: "string \<Rightarrow> int option" where
  "parse_digits ds =
     (let ds' = filter (\<lambda>c. c \<noteq> CHR ''_'') ds
      in if digits_ok ds \<and> length ds' \<le> int_max_str_digits
         then Some (digits_value ds') else None)"

definition py_int :: "string \<Rightarrow> int option" where
  "py_int s =
     (case int_strip s of
        [] \<Rightarrow> None
      | c # cs \<Rightarrow>
          if c = CHR ''-'' then map_option uminus (parse_digits cs)
          else if c = CHR ''+'' then parse_digits cs
          else parse_digits (c # cs))"

text \<open>\<^verbatim>\<open>str(n)\<close> and \<^verbatim>\<open>f"{n}"\<close> for a non-negative integer: its decimal digits.\<close>

definition digit_char :: "nat \<Rightarrow> char" where
  "digit_char d = digits ! d"

fun str_of_nat :: "nat \<Rightarrow> string" where
  "str_of_nat n =
     (if n < 10 then [digit_char n] else str_of_nat (n div 10) @ [digit_char (n mod 10)])"

declare str_of_nat.simps [simp del]

section \<open>Rows and errors\<close>

text \<open>
  A row of \<^verbatim>\<open>csv.DictReader\<close> is a dictionary from column names to cells. A cell is a
  string, or \<^verbatim>\<open>None\<close> where the line had fewer fields than the header. Every exception
  of the source is a value \<open>Inl e\<close>.
\<close>

datatype cell = PyNone | Str string

type_synonym row = "string \<Rightarrow> cell option"

datatype py_error = KeyError | ValueError | TypeError | AttributeError | OverflowError

definition bind_result :: "'e + 'a \<Rightarrow> ('a \<Rightarrow> 'e + 'b) \<Rightarrow> 'e + 'b" where
  "bind_result m f = (case m of Inl e \<Rightarrow> Inl e | Inr v \<Rightarrow> f v)"

text \<open>\<^verbatim>\<open>row[k]\<close> raises \<^verbatim>\<open>KeyError\<close> on a missing key; \<^verbatim>\<open>row.get(k, d)\<close> returns \<open>d\<close>.\<close>

definition row_getitem :: "row \<Rightarrow> string \<Rightarrow> py_error + cell" where
  "row_getitem row k = (case row k of None \<Rightarrow> Inl KeyError | Some v \<Rightarrow> Inr v)"

definition row_get :: "row \<Rightarrow> string \<Rightarrow> cell \<Rightarrow> cell" where
  "row_get row k d = (case row k of None \<Rightarrow> d | Some v \<Rightarrow> v)"

text \<open>A string method called on a cell: \<^verbatim>\<open>None\<close> has no such attribute.\<close>

definition str_method :: "(string \<Rightarrow> 'a) \<Rightarrow> cell \<Rightarrow> py_error + 'a" where
  "str_method f v = (case v of PyNone \<Rightarrow> Inl AttributeError | Str s \<Rightarrow> Inr (f s))"

text \<open>\<^verbatim>\<open>int(v)\<close> on a cell: \<^verbatim>\<open>TypeError\<close> on \<^verbatim>\<open>None\<close>, \<^verbatim>\<open>ValueError\<close> on a bad literal.\<close>

definition int_of_cell :: "cell \<Rightarrow> py_error + int" where
  "int_of_cell v =
     (case v of
        PyNone \<Rightarrow> Inl TypeError
      | Str s \<Rightarrow> (case py_int s of None \<Rightarrow> Inl ValueError | Some n \<Rightarrow> Inr n))"

text \<open>\<^verbatim>\<open>for _ in range(n): body\<close>, the body being a function on the variables it updates.\<close>

primrec repeat :: "nat \<Rightarrow> ('s \<Rightarrow> 's) \<Rightarrow> 's \<Rightarrow> 's" where
  "repeat 0 body s = s"
| "repeat (Suc n) body s = repeat n body (body s)"

definition for_range :: "int \<Rightarrow> ('s \<Rightarrow> 's) \<Rightarrow> 's \<Rightarrow> 's" where
  "for_range n body s = repeat (nat n) body s"

section \<open>Interfaces of a device\<close>

text \<open>
  An interface is a Python dictionary with string keys, kept here as an association list
  in insertion order. \<^verbatim>\<open>iface[k] = v\<close> is \<^const>\<open>AList.update\<close>: it replaces the value of
  an existing key and appends a new key at the end.
\<close>

datatype py_val = VStr string | VBool bool

type_synonym iface = "(string \<times> py_val) list"

text \<open>
  \<^verbatim>\<open>create_interfaces(row)\<close>. Each of the seven loops updates the list of interfaces and
  one of the two counters; the state of a loop is that pair.
\<close>

definition create_interfaces :: "row \<Rightarrow> py_error + iface list" where
  "create_interfaces row =
     bind_result (str_method (\<lambda>s. lower (strip s)) (row_get row ''Stacking'' (Str []))) (\<lambda>stacking_str.
     let is_stacking = (stacking_str = ''true'');
         base_name_1g = (if is_stacking then ''GigabitEthernet1/0/'' else ''GigabitEthernet'');
         base_name_10g = (if is_stacking then ''TenGigabitEthernet1/0/'' else ''TenGigabitEthernet'');
         interfaces = [];
         int_index_1g = (1::nat);
         int_index_10g = (1::nat)
     in
     bind_result (bind_result (row_getitem row ''Model'') (str_method upper)) (\<lambda>model_name.
     let is_poe = (py_in ''P-'' model_name \<or> py_in ''FP-'' model_name) in
     bind_result (bind_result (row_getitem row ''GigabitEthernet Copper'') int_of_cell) (\<lambda>num_gi_copper.
     let (interfaces, int_index_1g) =
           for_range num_gi_copper (\<lambda>(interfaces, int_index_1g).
             let iface = [(''name'', VStr (base_name_1g @ str_of_nat int_index_1g)),
                          (''type'', VStr ''1000base-t''),
                          (''enabled'', VBool True)];
                 iface = (if is_poe
                          then AList.update ''poe_type'' (VStr ''type2-ieee802.3at'')
                                 (AList.update ''poe_mode'' (VStr ''pse'') iface)
                          else iface)
             in (interfaces @ [iface], int_index_1g + 1)) (interfaces, int_index_1g)
     in
     bind_result (bind_result (row_getitem row ''GigabitEthernet SFP'') int_of_cell) (\<lambda>num_gi_sfp.
     let (interfaces, int_index_1g) =
           for_range num_gi_sfp (\<lambda>(interfaces, int_index_1g).
             let iface = [(''name'', VStr (base_name_1g @ str_of_nat int_index_1g)),
                          (''type'', VStr ''1000base-x-sfp''),
                          (''enabled'', VBool True)]
             in (interfaces @ [iface], int_index_1g + 1)) (interfaces, int_index_1g)
     in
     bind_result (bind_result (row_getitem row ''GigabitEthernet Combo'') int_of_cell) (\<lambda>num_gi_combo.
     let (interfaces, int_index_1g) =
           for_range num_gi_combo (\<lambda>(interfaces, int_index_1g).
             let iface = [(''name'', VStr (base_name_1g @ str_of_nat int_index_1g)),
                          (''type'', VStr ''1000base-x-sfp''),
                          (''description'', VStr ''SFP/RJ45 Combo''),
                          (''enabled'', VBool True)]
             in (interfaces @ [iface], int_index_1g + 1)) (interfaces, int_index_1g)
     in
     bind_result (bind_result (row_getitem row ''TwoGigabitEthernet'') int_of_cell) (\<lambda>num_two_gi.
     let (interfaces, int_index_1g) =
           for_range num_two_gi (\<lambda>(interfaces, int_index_1g).
             let iface = [(''name'', VStr (base_name_1g @ str_of_nat int_index_1g)),
                          (''type'', VStr ''2.5gbase-t''),
                          (''enabled'', VBool True)]
             in (interfaces @ [iface], int_index_1g + 1)) (interfaces, int_index_1g)
     in
     bind_result (bind_result (row_getitem row ''TenGigabitEthernet Copper'') int_of_cell) (\<lambda>num_ten_gi_copper.
     let (interfaces, int_index_10g) =
           for_range num_ten_gi_copper (\<lambda>(interfaces, int_index_10g).
             let iface = [(''name'', VStr (base_name_10g @ str_of_nat int_index_10g)),
                          (''type'', VStr ''10gbase-t''),
                          (''enabled'', VBool True)]
             in (interfaces @ [iface], int_index_10g + 1)) (interfaces, int_index_10g)
     in
     bind_result (bind_result (row_getitem row ''TenGigabitEthernet SFP+'') int_of_cell) (\<lambda>num_ten_gi_sfp.
     let (interfaces, int_index_10g) =
           for_range num_ten_gi_sfp (\<lambda>(interfaces, int_index_10g).
             let iface = [(''name'', VStr (base_name_10g @ str_of_nat int_index_10g)),
                          (''type'', VStr ''10gbase-x-sfpp''),
                          (''enabled'', VBool True)]
             in (interfaces @ [iface], int_index_10g + 1)) (interfaces, int_index_10g)
     in
     bind_result (bind_result (row_getitem row ''TenGigabitEthernet Combo'') int_of_cell) (\<lambda>num_ten_gi_combo.
     let (interfaces, int_index_10g) =
           for_range num_ten_gi_combo (\<lambda>(interfaces, int_index_10g).
             let iface = [(''name'', VStr (base_name_10g @ str_of_nat int_index_10g)),
                          (''type'', VStr ''10gbase-x-sfpp''),
                          (''description'', VStr ''SFP+/RJ45 Combo''),
                          (''enabled'', VBool True)]
             in (interfaces @ [iface], int_index_10g + 1)) (interfaces, int_index_10g)
     in
     bind_result (row_getitem row ''OOB'') (\<lambda>oob.
     bind_result
       (case oob of
          PyNone \<Rightarrow> Inr False
        | Str s \<Rightarrow>
            if s \<noteq> [] \<and> isdigit s
            then bind_result (int_of_cell oob) (\<lambda>n. Inr (n > 0))
            else Inr False) (\<lambda>has_oob.
     let interfaces =
           (if has_oob
            then interfaces @ [[(''name'', VStr ''OOB''),
                                (''type'', VStr ''1000base-t''),
                                (''enabled'', VBool True),
                                (''mgmt_only'', VBool True)]]
            else interfaces);
         interfaces = interfaces @ [[(''name'', VStr ''Vlan1''),
                                     (''type'', VStr ''virtual''),
                                     (''enabled'', VBool True),
                                     (''mgmt_only'', VBool False)]]
     in Inr interfaces)))))))))))"

section \<open>The device record\<close>

text \<open>
  \<^verbatim>\<open>create_console_ports(row)\<close>: one console port for each of \<^verbatim>\<open>con0\<close>, \<^verbatim>\<open>con1\<close>,
  \<^verbatim>\<open>con2\<close> whose stripped value is not empty.
\<close>

fun console_ports_from :: "row \<Rightarrow> string list \<Rightarrow> iface list \<Rightarrow> py_error + iface list" where
  "console_ports_from row [] console_ports = Inr console_ports"
| "console_ports_from row (c # cs) console_ports =
     bind_result (str_method strip (row_get row c (Str []))) (\<lambda>ctype.
     console_ports_from row cs
       (if ctype \<noteq> []
        then console_ports @ [[(''name'', VStr c), (''type'', VStr ctype)]]
        else console_ports))"

definition create_console_ports :: "row \<Rightarrow> py_error + iface list" where
  "create_console_ports row = console_ports_from row [''con0'', ''con1'', ''con2''] []"

text \<open>
  The record that the body of the loop of \<^verbatim>\<open>main\<close> builds for one row, with the two
  image flags as they are when it is dumped. Floating point and the file system are outside the model: \<open>py_float\<close> stands for
  \<^verbatim>\<open>float(s)\<close> on a string (\<open>None\<close> is \<^verbatim>\<open>ValueError\<close>), \<open>py_round\<close> for
  \<^verbatim>\<open>int(round(x))\<close> and \<open>isfile\<close> for \<^verbatim>\<open>os.path.isfile\<close>. The two constant entries
  \<^verbatim>\<open>u_height\<close> (the float 1.0) and \<^verbatim>\<open>comments\<close> are left out, and so are the name of
  the output file (\<^verbatim>\<open>model.upper()\<close>, which raises nothing once \<^verbatim>\<open>slugify(model)\<close> has
  returned), the writing of the file and the message printed after it. A power port is
  its name, its type and its maximum draw.
\<close>

record 'f device_dict =
  manufacturer :: string
  model :: string
  slug :: string
  part_number :: string
  is_full_depth :: bool
  front_image :: bool
  rear_image :: bool
  weight :: 'f
  weight_unit :: string
  interfaces :: "iface list"
  console_ports :: "iface list"
  power_ports :: "(string \<times> cell \<times> int) list"

definition float_of_cell :: "(string \<Rightarrow> 'f option) \<Rightarrow> cell \<Rightarrow> py_error + 'f" where
  "float_of_cell py_float v =
     (case v of
        PyNone \<Rightarrow> Inl TypeError
      | Str s \<Rightarrow> (case py_float s of None \<Rightarrow> Inl ValueError | Some x \<Rightarrow> Inr x))"

definition main_row ::
  "(string \<Rightarrow> 'f option) \<Rightarrow> ('f \<Rightarrow> py_error + int) \<Rightarrow> (string \<Rightarrow> bool) \<Rightarrow> row
     \<Rightarrow> py_error + 'f device_dict" where
  "main_row py_float py_round isfile row =
     bind_result (row_getitem row ''Model'') (\<lambda>model_cell.
     let part_number = model_cell in
     bind_result (str_method slugify model_cell) (\<lambda>slugified.
     let device_slug = ''cisco-'' @ slugified in
     bind_result (str_method (\<lambda>s. py_replace s ''C1300'' ''Catalyst 1300'') model_cell) (\<lambda>model.
     bind_result (bind_result (row_getitem row ''Weight (pounds)'') (float_of_cell py_float)) (\<lambda>weight_lbs.
     bind_result (bind_result (bind_result (row_getitem row ''Draw'') (float_of_cell py_float)) py_round) (\<lambda>max_draw.
     bind_result (create_interfaces row) (\<lambda>ifaces.
     bind_result (create_console_ports row) (\<lambda>consoles.
     bind_result (row_getitem row ''psu0'') (\<lambda>psu0.
     bind_result (str_method id part_number) (\<lambda>part_number.
     let front_path = ''elevation-images/'' @ lower device_slug @ ''.front.png'';
         rear_path = ''elevation-images/'' @ lower device_slug @ ''.rear.png'';
         device_dict = \<lparr>
           manufacturer = ''Cisco'',
           model = model,
           slug = device_slug,
           part_number = part_number,
           is_full_depth = False,
           front_image = isfile front_path,
           rear_image = isfile rear_path,
           weight = weight_lbs,
           weight_unit = ''lb'',
           interfaces = ifaces,
           console_ports = consoles,
           power_ports = [(''PSU0'', psu0, max_draw)] \<rparr>
     in Inr device_dict)))))))))"

section \<open>Images\<close>

text \<open>
  An image is its size \<^verbatim>\<open>(width, height)\<close> and its pixels; \<open>pix img x y\<close> is the pixel
  in column \<open>x\<close> of row \<open>y\<close>, which means something for \<open>x < width\<close> and \<open>y < height\<close>.
  An RGBA pixel is \<^verbatim>\<open>(r, g, b, a)\<close>, an RGB pixel \<^verbatim>\<open>(r, g, b)\<close>, a pixel of a single band
  one number. Both functions of the source turn their image into RGBA mode first; the
  model starts from that RGBA image.
\<close>

record 'p image =
  img_size :: "nat \<times> nat"
  pix :: "nat \<Rightarrow> nat \<Rightarrow> 'p"

type_synonym rgba = "nat \<times> nat \<times> nat \<times> nat"
type_synonym rgb = "nat \<times> nat \<times> nat"
type_synonym box = "nat \<times> nat \<times> nat \<times> nat"

text \<open>\<^verbatim>\<open>img.getchannel("A")\<close>: the alpha band as an image of its own.\<close>

definition getchannel_A :: "rgba image \<Rightarrow> nat image" where
  "getchannel_A img =
     \<lparr>img_size = img_size img, pix = (\<lambda>x y. case pix img x y of (r, g, b, a) \<Rightarrow> a)\<rparr>"

text \<open>
  \<^verbatim>\<open>Image.getbbox()\<close> on a single band: the box \<^verbatim>\<open>(left, top, right, bottom)\<close> from
  the first to one past the last column and row that hold a non-zero pixel, or
  \<^verbatim>\<open>None\<close> when there is none.
\<close>

definition nonzero_columns :: "nat image \<Rightarrow> nat list" where
  "nonzero_columns band =
     (case img_size band of (w, h) \<Rightarrow>
        filter (\<lambda>x. \<exists>y \<in> set [0..<h]. pix band x y \<noteq> 0) [0..<w])"

definition nonzero_rows :: "nat image \<Rightarrow> nat list" where
  "nonzero_rows band =
     (case img_size band of (w, h) \<Rightarrow>
        filter (\<lambda>y. \<exists>x \<in> set [0..<w]. pix band x y \<noteq> 0) [0..<h])"

definition getbbox :: "nat image \<Rightarrow> box option" where
  "getbbox band =
     (let xs = nonzero_columns band; ys = nonzero_rows band
      in if xs = [] \<or> ys = [] then None
         else Some (hd xs, hd ys, Suc (last xs), Suc (last ys)))"

text \<open>
  \<^verbatim>\<open>img.crop((left, top, right, bottom))\<close> on an RGBA image: the result has the size of
  the box, and what the box holds outside the image is transparent black.
\<close>

definition crop :: "rgba image \<Rightarrow> box \<Rightarrow> rgba image" where
  "crop img bx =
     (case bx of (l, t, r, b) \<Rightarrow>
      case img_size img of (w, h) \<Rightarrow>
        \<lparr>img_size = (r - l, b - t),
         pix = (\<lambda>x y. if x + l < w \<and> y + t < h then pix img (x + l) (y + t)
                       else (0, 0, 0, 0))\<rparr>)"

text \<open>
  \<^verbatim>\<open>
  def crop_transparent_png(input_path):
      img = Image.open(input_path)
      if img.mode != "RGBA":
          img = img.convert("RGBA")
      alpha = img.getchannel("A")
      bbox = alpha.getbbox()
      if bbox:
          img = img.crop(bbox)
      return img
  \<close>
  from the RGBA image on.
\<close>

definition crop_transparent_png :: "rgba image \<Rightarrow> rgba image" where
  "crop_transparent_png img =
     (let alpha = getchannel_A img;
          bbox = getbbox alpha
      in case bbox of Some bx \<Rightarrow> crop img bx | None \<Rightarrow> img)"

text \<open>
  \<^verbatim>\<open>Image.new("RGB", size, color)\<close>, and \<^verbatim>\<open>dst.paste(src, (0, 0), mask=src)\<close> for an
  RGBA source: inside the source's size (and the destination's) each pixel of the
  destination is mixed with the source's through its alpha; \<open>blend\<close> stands for that
  mixing of one pixel.
\<close>

definition image_new :: "nat \<times> nat \<Rightarrow> rgb \<Rightarrow> rgb image" where
  "image_new sz color = \<lparr>img_size = sz, pix = (\<lambda>x y. color)\<rparr>"

definition paste :: "(rgb \<Rightarrow> rgba \<Rightarrow> rgb) \<Rightarrow> rgb image \<Rightarrow> rgba image \<Rightarrow> rgb image" where
  "paste blend dst src =
     dst\<lparr>pix := (\<lambda>x y. if x < fst (img_size src) \<and> y < snd (img_size src)
                         then blend (pix dst x y) (pix src x y) else pix dst x y)\<rparr>"

text \<open>
  \<^verbatim>\<open>target_width = int(9.8 * height)\<close>. The source multiplies in binary floating point
  and truncates; the model computes \<open>98 * height div 10\<close> exactly. The two agree for
  every height an image can have (below \<open>2 ^ 31\<close>): the double nearest to 9.8 lies above
  it by less than \<open>10 ^ -15\<close>, the product is rounded by less than \<open>2 ^ -18\<close>, and the
  fractional part of \<open>9.8 * height\<close> is a multiple of 0.2.
\<close>

definition target_width_of :: "nat \<Rightarrow> nat" where
  "target_width_of height = 98 * height div 10"

text \<open>
  \<^verbatim>\<open>
  def enforce_10_to_1_aspect(img):
      width, height = img.size
      target_width = int(9.8 * height)
      if width == target_width:
          final_img = Image.new("RGB", (width, height), (255, 255, 255))
          final_img.paste(img, (0, 0), mask=img)
          return final_img
      elif width < target_width:
          final_img = Image.new("RGB", (target_width, height), (255, 255, 255))
          final_img.paste(img, (0, 0), mask=img)
          return final_img
      else:
          cropped_img = img.crop((0, 0, target_width, height))
          final_img = Image.new("RGB", (target_width, height), (255, 255, 255))
          final_img.paste(cropped_img, (0, 0), mask=cropped_img)
          return final_img
  \<close>
\<close>

definition enforce_10_to_1_aspect :: "(rgb \<Rightarrow> rgba \<Rightarrow> rgb) \<Rightarrow> rgba image \<Rightarrow> rgb image" where
  "enforce_10_to_1_aspect blend img =
     (case img_size img of (width, height) \<Rightarrow>
      let target_width = target_width_of height in
      if width = target_width then
        (let final_img = image_new (width, height) (255, 255, 255)
         in paste blend final_img img)
      else if width < target_width then
        (let final_img = image_new (target_width, height) (255, 255, 255)
         in paste blend final_img img)
      else
        (let cropped_img = crop img (0, 0, target_width, height);
             final_img = image_new (target_width, height) (255, 255, 255)
         in paste blend final_img cropped_img))"

section \<open>Predicates used in the statements\<close>

text \<open>No two neighbours in a string are both of the class \<open>C\<close>.\<close>

fun no_adjacent :: "(char \<Rightarrow> bool) \<Rightarrow> string \<Rightarrow> bool" where
  "no_adjacent C [] = True"
| "no_adjacent C [c] = True"
| "no_adjacent C (c # d # cs) = (\<not> (C c \<and> C d) \<and> no_adjacent C (d # cs))"

text \<open>
  The interfaces that one loop of \<^const>\<open>create_interfaces\<close> appends: \<open>n\<close> interfaces
  named \<open>base\<close> followed by the numbers from \<open>start\<close> on, each with the attributes \<open>attrs\<close>.
\<close>

definition numbered :: "string \<Rightarrow> (string \<times> py_val) list \<Rightarrow> nat \<Rightarrow> nat \<Rightarrow> iface list" where
  "numbered base attrs start n =
     map (\<lambda>i. (''name'', VStr (base @ str_of_nat i)) # attrs) [start..<start + n]"

text \<open>The list that \<^const>\<open>create_interfaces\<close> returns, from the values it read from the row.\<close>

definition interface_list ::
  "bool \<Rightarrow> bool \<Rightarrow> nat \<Rightarrow> nat \<Rightarrow> nat \<Rightarrow> nat \<Rightarrow> nat \<Rightarrow> nat \<Rightarrow> nat \<Rightarrow> bool \<Rightarrow> iface list" where
  "interface_list is_stacking is_poe n1 n2 n3 n4 n5 n6 n7 has_oob =
     (let base_name_1g = (if is_stacking then ''GigabitEthernet1/0/'' else ''GigabitEthernet'');
          base_name_10g = (if is_stacking then ''TenGigabitEthernet1/0/'' else ''TenGigabitEthernet'')
      in numbered base_name_1g
           ([(''type'', VStr ''1000base-t''), (''enabled'', VBool True)]
            @ (if is_poe then [(''poe_mode'', VStr ''pse''), (''poe_type'', VStr ''type2-ieee802.3at'')]
               else [])) 1 n1
         @ numbered base_name_1g
             [(''type'', VStr ''1000base-x-sfp''), (''enabled'', VBool True)] (1 + n1) n2
         @ numbered base_name_1g
             [(''type'', VStr ''1000base-x-sfp''), (''description'', VStr ''SFP/RJ45 Combo''),
              (''enabled'', VBool True)] (1 + n1 + n2) n3
         @ numbered base_name_1g
             [(''type'', VStr ''2.5gbase-t''), (''enabled'', VBool True)] (1 + n1 + n2 + n3) n4
         @ numbered base_name_10g
             [(''type'', VStr ''10gbase-t''), (''enabled'', VBool True)] 1 n5
         @ numbered base_name_10g
             [(''type'', VStr ''10gbase-x-sfpp''), (''enabled'', VBool True)] (1 + n5) n6
         @ numbered base_name_10g
             [(''type'', VStr ''10gbase-x-sfpp''), (''description'', VStr ''SFP+/RJ45 Combo''),
              (''enabled'', VBool True)] (1 + n5 + n6) n7
         @ (if has_oob
            then [[(''name'', VStr ''OOB''), (''type'', VStr ''1000base-t''),
                   (''enabled'', VBool True), (''mgmt_only'', VBool True)]]
            else [])
         @ [[(''name'', VStr ''Vlan1''), (''type'', VStr ''virtual''),
             (''enabled'', VBool True), (''mgmt_only'', VBool False)]])"

text \<open>
  The test of line 155, \<^verbatim>\<open>row['OOB'] and row['OOB'].isdigit() and int(row['OOB']) > 0\<close>,
  on the cell that \<^verbatim>\<open>row['OOB']\<close> returned.
\<close>

definition oob_test :: "cell \<Rightarrow> py_error + bool" where
  "oob_test oob =
     (case oob of
        PyNone \<Rightarrow> Inr False
      | Str s \<Rightarrow>
          if s \<noteq> [] \<and> isdigit s
          then bind_result (int_of_cell oob) (\<lambda>n. Inr (n > 0))
          else Inr False)"

text \<open>
  \<^verbatim>\<open>int(row[k])\<close>, and the seven columns that \<^const>\<open>create_interfaces\<close> reads so, in the
  order it reads them.
\<close>

definition count_of :: "row \<Rightarrow> string \<Rightarrow> py_error + int" where
  "count_of row k = bind_result (row_getitem row k) int_of_cell"

definition count_fields :: "string list" where
  "count_fields =
     [''GigabitEthernet Copper'', ''GigabitEthernet SFP'', ''GigabitEthernet Combo'',
      ''TwoGigabitEthernet'', ''TenGigabitEthernet Copper'', ''TenGigabitEthernet SFP+'',
      ''TenGigabitEthernet Combo'']"

text \<open>\<^verbatim>\<open>iface.get(k)\<close>: the value of a key of an interface, if it has the key.\<close>

definition iface_get :: "iface \<Rightarrow> string \<Rightarrow> py_val option" where
  "iface_get iface k = map_of iface k"

text \<open>An interface carries the two PoE attributes, or none of the two keys.\<close>

definition has_poe :: "iface \<Rightarrow> bool" where
  "has_poe iface =
     (iface_get iface ''poe_mode'' = Some (VStr ''pse'')
      \<and> iface_get iface ''poe_type'' = Some (VStr ''type2-ieee802.3at''))"

definition no_poe_keys :: "iface \<Rightarrow> bool" where
  "no_poe_keys iface =
     (iface_get iface ''poe_mode'' = None \<and> iface_get iface ''poe_type'' = None)"

text \<open>\<^verbatim>\<open>row['Model'].upper()\<close>, the string in which the PoE detection looks.\<close>

definition model_name_of :: "row \<Rightarrow> py_error + string" where
  "model_name_of row = bind_result (row_getitem row ''Model'') (str_method upper)"

text \<open>
  A row with 2 Gigabit copper ports, 1 Gigabit SFP port, 1 Ten-gigabit copper port and no
  other port, for a given model, stacking flag and OOB cell.
\<close>

definition example_row :: "string \<Rightarrow> string \<Rightarrow> string \<Rightarrow> row" where
  "example_row model_str stacking oob = map_of
     [(''Model'', Str model_str), (''Stacking'', Str stacking),
      (''GigabitEthernet Copper'', Str ''2''), (''GigabitEthernet SFP'', Str ''1''),
      (''GigabitEthernet Combo'', Str ''0''), (''TwoGigabitEthernet'', Str ''0''),
      (''TenGigabitEthernet Copper'', Str ''1''), (''TenGigabitEthernet SFP+'', Str ''0''),
      (''TenGigabitEthernet Combo'', Str ''0''), (''OOB'', Str oob)]"

text \<open>The two interfaces that are not numbered.\<close>

definition oob_iface :: iface where
  "oob_iface = [(''name'', VStr ''OOB''), (''type'', VStr ''1000base-t''),
                (''enabled'', VBool True), (''mgmt_only'', VBool True)]"

definition vlan1 :: iface where
  "vlan1 = [(''name'', VStr ''Vlan1''), (''type'', VStr ''virtual''),
            (''enabled'', VBool True), (''mgmt_only'', VBool False)]"

text \<open>
  The pixel in column \<open>x\<close> and row \<open>y\<close> lies in the image and its alpha is not zero; a
  box encloses the image's pixels of non-zero alpha when each of them lies from its left
  and top edge on and before its right and bottom edge.
\<close>

definition nonzero_alpha_at :: "rgba image \<Rightarrow> nat \<Rightarrow> nat \<Rightarrow> bool" where
  "nonzero_alpha_at img x y =
     (x < fst (img_size img) \<and> y < snd (img_size img)
      \<and> (case pix img x y of (r, g, b, a) \<Rightarrow> a \<noteq> 0))"

definition encloses :: "rgba image \<Rightarrow> box \<Rightarrow> bool" where
  "encloses img bx =
     (case bx of (l, t, r, b) \<Rightarrow>
        \<forall>x y. nonzero_alpha_at img x y \<longrightarrow> l \<le> x \<and> x < r \<and> t \<le> y \<and> y < b)"

text \<open>Two small images: one fully transparent, one with a single opaque red pixel.\<close>

definition transparent_2x2 :: "rgba image" where
  "transparent_2x2 = \<lparr>img_size = (2, 2), pix = (\<lambda>x y. (0, 0, 0, 0))\<rparr>"

definition one_pixel_4x3 :: "rgba image" where
  "one_pixel_4x3 =
     \<lparr>img_size = (4, 3),
      pix = (\<lambda>x y. if x = 2 \<and> y = 1 then (255, 0, 0, 255) else (0, 0, 0, 0))\<rparr>"

text \<open>
  Replacing at a single point, as the specification words it: the first occurrence of
  \<open>old\<close> is replaced and the rest of the string is kept. The source calls
  \<^verbatim>\<open>str.replace\<close>, which is \<^const>\<open>py_replace\<close>.
\<close>

fun replace_first_occurrence :: "string \<Rightarrow> string \<Rightarrow> string \<Rightarrow> string" where
  "replace_first_occurrence old new [] = []"
| "replace_first_occurrence old new (c # cs) =
     (if prefix old (c # cs) then new @ drop (length old) (c # cs)
      else c # replace_first_occurrence old new cs)"

text \<open>The number of places of a string at which \<open>old\<close> starts.\<close>

fun occurrences :: "string \<Rightarrow> string \<Rightarrow> nat" where
  "occurrences old [] = (if old = [] then 1 else 0)"
| "occurrences old (c # cs) = (if prefix old (c # cs) then 1 else 0) + occurrences old cs"

text \<open>A complete row for \<^const>\<open>main_row\<close>, for a given model.\<close>

definition device_row :: "string \<Rightarrow> row" where
  "device_row model_str =
     (example_row model_str ''false'' ''0'')
       (''Weight (pounds)'' \<mapsto> Str ''3.5'', ''Draw'' \<mapsto> Str ''12.3'',
        ''psu0'' \<mapsto> Str ''iec-60320-c14'', ''con0'' \<mapsto> Str ''rj-45'')"

section \<open>Unfolding the string functions on concrete strings\<close>

lemmas case_defs =
  lower_def lower_char_def upper_def upper_char_def
  ascii_uppercase_def ascii_lowercase_def latin1_uppercase_def latin1_lowercase_def

lemmas py_int_defs =
  py_int_def int_strip_def is_int_space_def parse_digits_def is_decimal_def digits_def
  int_max_str_digits_def digits_value_def digit_val_def Let_def

section \<open>Slugify\<close>

lemma no_adjacent_Cons:
  "no_adjacent C (c # r) = ((C c \<longrightarrow> r = [] \<or> \<not> C (hd r)) \<and> no_adjacent C r)"
  by (cases r) auto

lemma no_adjacent_append:
  "no_adjacent C (xs @ ys) \<Longrightarrow> no_adjacent C xs \<and> no_adjacent C ys"
  by (induction C xs rule: no_adjacent.induct) (auto simp: no_adjacent_Cons)

lemma no_adjacent_mono:
  "(\<And>c. D c \<Longrightarrow> C c) \<Longrightarrow> no_adjacent C s \<Longrightarrow> no_adjacent D s"
  by (induction D s rule: no_adjacent.induct) auto

lemma set_re_sub_runs:
  "set (re_sub_runs C s) \<subseteq> {c \<in> set s. \<not> C c} \<union> {CHR ''-''}"
proof (induction C s rule: re_sub_runs.induct)
  case (1 C)
  then show ?case by simp
next
  case (2 C c cs)
  show ?case
  proof (cases "C c")
    case True
    with 2 have "set (re_sub_runs C (dropWhile C cs))
                   \<subseteq> {c \<in> set (dropWhile C cs). \<not> C c} \<union> {CHR ''-''}" by simp
    moreover have "set (dropWhile C cs) \<subseteq> set cs" by (auto dest: set_dropWhileD)
    ultimately show ?thesis using True by auto
  next
    case False
    with 2 show ?thesis by auto
  qed
qed

lemma hd_re_sub_runs:
  "s = [] \<or> \<not> C (hd s) \<Longrightarrow> re_sub_runs C s = [] \<or> \<not> C (hd (re_sub_runs C s))"
  by (cases s) auto

lemma no_adjacent_re_sub_runs: "no_adjacent C (re_sub_runs C s)"
proof (induction C s rule: re_sub_runs.induct)
  case (1 C)
  then show ?case by simp
next
  case (2 C c cs)
  show ?case
  proof (cases "C c")
    case True
    have "dropWhile C cs = [] \<or> \<not> C (hd (dropWhile C cs))"
      using hd_dropWhile [of C cs] by blast
    then have "re_sub_runs C (dropWhile C cs) = [] \<or> \<not> C (hd (re_sub_runs C (dropWhile C cs)))"
      by (rule hd_re_sub_runs)
    with 2 True show ?thesis by (simp add: no_adjacent_Cons)
  next
    case False
    with 2 show ?thesis by (simp add: no_adjacent_Cons)
  qed
qed

lemma re_sub_runs_fixed:
  "(\<And>c. c \<in> set s \<Longrightarrow> C c \<Longrightarrow> c = CHR ''-'') \<Longrightarrow> no_adjacent C s \<Longrightarrow> re_sub_runs C s = s"
proof (induction s)
  case Nil
  then show ?case by simp
next
  case (Cons c cs)
  from Cons.prems have tl: "re_sub_runs C cs = cs"
    by (intro Cons.IH) (auto simp: no_adjacent_Cons)
  show ?case
  proof (cases "C c")
    case True
    with Cons.prems have "c = CHR ''-''" by simp
    moreover from True Cons.prems have "cs = [] \<or> \<not> C (hd cs)" by (simp add: no_adjacent_Cons)
    then have "dropWhile C cs = cs" by (cases cs) auto
    ultimately show ?thesis using True tl by simp
  next
    case False
    with tl show ?thesis by simp
  qed
qed

lemma strip_dashes_decomp:
  "\<exists>ps ss. s = ps @ strip_dashes s @ ss"
proof -
  let ?t = "dropWhile is_dash s"
  have "s = takeWhile is_dash s @ ?t" by simp
  moreover have "strip_dashes s @ rev (takeWhile is_dash (rev ?t))
                   = rev (takeWhile is_dash (rev ?t) @ dropWhile is_dash (rev ?t))"
    by (simp only: strip_dashes_def rev_append)
  then have "?t = strip_dashes s @ rev (takeWhile is_dash (rev ?t))"
    by (simp only: takeWhile_dropWhile_id rev_rev_ident)
  ultimately have "s = takeWhile is_dash s @ strip_dashes s @ rev (takeWhile is_dash (rev ?t))"
    by simp
  then show ?thesis by blast
qed

lemma last_dropWhile: "dropWhile P xs \<noteq> [] \<Longrightarrow> last (dropWhile P xs) = last xs"
  by (metis last_appendR takeWhile_dropWhile_id)

lemma dropWhile_not_Nil: "dropWhile P xs \<noteq> [] \<Longrightarrow> xs \<noteq> []"
  by (metis dropWhile.simps(1))

lemma strip_dashes_ends:
  "strip_dashes s = [] \<or> (\<not> is_dash (hd (strip_dashes s)) \<and> \<not> is_dash (last (strip_dashes s)))"
proof (cases "strip_dashes s = []")
  case True
  then show ?thesis by simp
next
  case False
  define t where "t = dropWhile is_dash s"
  define u where "u = dropWhile is_dash (rev t)"
  have str: "strip_dashes s = rev u" by (simp only: strip_dashes_def t_def u_def)
  with False have u: "u \<noteq> []" by simp
  then have "rev t \<noteq> []" unfolding u_def by (rule dropWhile_not_Nil)
  then have t: "t \<noteq> []" by simp
  have "\<not> is_dash (hd u)" using u unfolding u_def by (rule hd_dropWhile)
  then have l: "\<not> is_dash (last (strip_dashes s))"
    using u by (simp add: str last_rev)
  have "last u = last (rev t)" using u unfolding u_def by (rule last_dropWhile)
  then have "last u = hd t" using t by (simp add: last_rev)
  moreover have "\<not> is_dash (hd t)" using t unfolding t_def by (rule hd_dropWhile)
  ultimately have "\<not> is_dash (hd (strip_dashes s))"
    using u by (simp add: str hd_rev)
  with l show ?thesis by simp
qed

lemma strip_dashes_fixed:
  "s = [] \<or> (\<not> is_dash (hd s) \<and> \<not> is_dash (last s)) \<Longrightarrow> strip_dashes s = s"
proof (cases s)
  case Nil
  then show ?thesis by (simp add: strip_dashes_def)
next
  case (Cons c cs)
  assume "s = [] \<or> (\<not> is_dash (hd s) \<and> \<not> is_dash (last s))"
  with Cons have h: "\<not> is_dash (hd s)" and l: "\<not> is_dash (last s)" by auto
  from h Cons have "dropWhile is_dash s = s" by simp
  moreover from l Cons have "dropWhile is_dash (rev s) = rev s"
    by (cases "rev s") (auto simp: hd_rev [symmetric])
  ultimately show ?thesis by (simp add: strip_dashes_def)
qed

lemma dash_not_a_z_0_9: "\<not> is_a_z_0_9 (CHR ''-'')"
  by (simp add: is_a_z_0_9_def ascii_lowercase_def digits_def)

lemma lower_char_other:
  "c \<notin> set (ascii_uppercase @ latin1_uppercase) \<Longrightarrow> lower_char c = c"
proof -
  assume "c \<notin> set (ascii_uppercase @ latin1_uppercase)"
  moreover have "length (ascii_uppercase @ latin1_uppercase)
                   = length (ascii_lowercase @ latin1_lowercase)"
    by (simp add: ascii_uppercase_def ascii_lowercase_def latin1_uppercase_def
        latin1_lowercase_def)
  ultimately have "map_of (zip (ascii_uppercase @ latin1_uppercase)
                               (ascii_lowercase @ latin1_lowercase)) c = None"
    using map_of_zip_is_None by metis
  then show ?thesis by (simp only: lower_char_def option.case)
qed

lemma not_uppercase:
  "is_a_z_0_9 c \<or> c = CHR ''-'' \<Longrightarrow> c \<notin> set (ascii_uppercase @ latin1_uppercase)"
  by (auto simp: is_a_z_0_9_def ascii_lowercase_def ascii_uppercase_def latin1_uppercase_def
      digits_def)

lemma lower_char_fixed: "is_a_z_0_9 c \<or> c = CHR ''-'' \<Longrightarrow> lower_char c = c"
  by (rule lower_char_other) (rule not_uppercase)

lemma lower_fixed: "(\<And>c. c \<in> set s \<Longrightarrow> is_a_z_0_9 c \<or> c = CHR ''-'') \<Longrightarrow> lower s = s"
  unfolding lower_def by (induction s) (simp_all add: lower_char_fixed)

text \<open>The second substitution of \<^const>\<open>slugify\<close> never changes anything: the first leaves no run of dashes.\<close>

lemma slugify_eq: "slugify x = strip_dashes (re_sub_runs (\<lambda>c. \<not> is_a_z_0_9 c) (lower x))"
proof -
  let ?b = "re_sub_runs (\<lambda>c. \<not> is_a_z_0_9 c) (lower x)"
  have "no_adjacent (\<lambda>c. \<not> is_a_z_0_9 c) ?b" by (rule no_adjacent_re_sub_runs)
  then have "no_adjacent is_dash ?b"
    by (rule no_adjacent_mono [rotated]) (simp add: is_dash_def dash_not_a_z_0_9)
  then have "re_sub_runs is_dash ?b = ?b"
    by (intro re_sub_runs_fixed) (simp_all add: is_dash_def)
  then show ?thesis by (simp add: slugify_def Let_def)
qed

lemma slugify_chars: "c \<in> set (slugify x) \<Longrightarrow> is_a_z_0_9 c \<or> c = CHR ''-''"
proof -
  assume c: "c \<in> set (slugify x)"
  obtain ps ss where "re_sub_runs (\<lambda>c. \<not> is_a_z_0_9 c) (lower x) = ps @ slugify x @ ss"
    using strip_dashes_decomp slugify_eq by metis
  with c have "c \<in> set (re_sub_runs (\<lambda>c. \<not> is_a_z_0_9 c) (lower x))" by simp
  with set_re_sub_runs [of "\<lambda>c. \<not> is_a_z_0_9 c" "lower x"] show ?thesis by auto
qed

lemma slugify_no_adjacent: "no_adjacent (\<lambda>c. \<not> is_a_z_0_9 c) (slugify x)"
proof -
  obtain ps ss where "re_sub_runs (\<lambda>c. \<not> is_a_z_0_9 c) (lower x) = ps @ slugify x @ ss"
    using strip_dashes_decomp slugify_eq by metis
  moreover have "no_adjacent (\<lambda>c. \<not> is_a_z_0_9 c) (re_sub_runs (\<lambda>c. \<not> is_a_z_0_9 c) (lower x))"
    by (rule no_adjacent_re_sub_runs)
  ultimately show ?thesis using no_adjacent_append by metis
qed

lemma slugify_ends:
  "slugify x = [] \<or> (\<not> is_dash (hd (slugify x)) \<and> \<not> is_dash (last (slugify x)))"
  unfolding slugify_eq by (rule strip_dashes_ends)

lemma slugify_idem: "slugify (slugify x) = slugify x"
proof -
  let ?d = "slugify x"
  have "lower ?d = ?d" by (rule lower_fixed) (rule slugify_chars)
  moreover have "re_sub_runs (\<lambda>c. \<not> is_a_z_0_9 c) ?d = ?d"
    using slugify_chars [of _ x] by (intro re_sub_runs_fixed slugify_no_adjacent) auto
  moreover have "strip_dashes ?d = ?d" by (rule strip_dashes_fixed) (rule slugify_ends)
  ultimately show ?thesis by (subst slugify_eq) simp
qed

text \<open>
  Claim C3. For every string \<open>x\<close>, \<open>slugify (slugify x) = slugify x\<close>; the result holds
  only characters of \<^verbatim>\<open>[a-z0-9-]\<close>, and it neither starts nor ends with \<^verbatim>\<open>-\<close>.
\<close>

theorem slugify_idempotent_and_shape:
  "slugify (slugify x) = slugify x
   \<and> (\<forall>c \<in> set (slugify x). c \<in> set ''abcdefghijklmnopqrstuvwxyz0123456789-'')
   \<and> (slugify x \<noteq> [] \<longrightarrow> hd (slugify x) \<noteq> CHR ''-'' \<and> last (slugify x) \<noteq> CHR ''-'')"
proof (intro conjI ballI impI)
  show "slugify (slugify x) = slugify x" by (rule slugify_idem)
next
  fix c assume "c \<in> set (slugify x)"
  then have "is_a_z_0_9 c \<or> c = CHR ''-''" by (rule slugify_chars)
  then show "c \<in> set ''abcdefghijklmnopqrstuvwxyz0123456789-''"
    by (auto simp: is_a_z_0_9_def ascii_lowercase_def digits_def)
next
  assume "slugify x \<noteq> []"
  with slugify_ends [of x] show "hd (slugify x) \<noteq> CHR ''-''" by (simp add: is_dash_def)
next
  assume "slugify x \<noteq> []"
  with slugify_ends [of x] show "last (slugify x) \<noteq> CHR ''-''" by (simp add: is_dash_def)
qed

lemma slugify_example: "slugify ''--C1300 8P_E!!2g--'' = ''c1300-8p-e-2g''"
  by (simp add: slugify_def case_defs
      is_a_z_0_9_def digits_def is_dash_def strip_dashes_def)

theorem slugify_idempotent_and_shape_witness:
  "slugify ''--C1300 8P_E!!2g--'' = ''c1300-8p-e-2g''
   \<and> slugify (slugify ''--C1300 8P_E!!2g--'') = slugify ''--C1300 8P_E!!2g--''
   \<and> hd (slugify ''--C1300 8P_E!!2g--'') \<noteq> CHR ''-''
   \<and> last (slugify ''--C1300 8P_E!!2g--'') \<noteq> CHR ''-''"
  using slugify_idempotent_and_shape [of "''--C1300 8P_E!!2g--''"] slugify_example
  by simp

section \<open>The interface list in closed form\<close>

lemma repeat_append:
  "repeat n (\<lambda>(ifs, i). (ifs @ [mk i], Suc i)) (ifs0, i0)
     = (ifs0 @ map mk [i0..<i0 + n], i0 + n)"
proof (induction n arbitrary: ifs0 i0)
  case 0
  then show ?case by simp
next
  case (Suc n)
  have "[i0..<i0 + Suc n] = i0 # [Suc i0..<Suc i0 + n]"
    by (simp add: upt_conv_Cons)
  with Suc show ?case by simp
qed

lemma for_range_append:
  "for_range n (\<lambda>(ifs, i). (ifs @ [mk i], Suc i)) (ifs0, i0)
     = (ifs0 @ map mk [i0..<i0 + nat n], i0 + nat n)"
  by (simp add: for_range_def repeat_append)

lemma for_range_append1:
  "for_range n (\<lambda>(ifs, i). (ifs @ [mk i], i + 1)) (ifs0, i0)
     = (ifs0 @ map mk [i0..<i0 + nat n], i0 + nat n)"
  using for_range_append by simp

lemma bind_result_cong: "(\<And>v. f v = g v) \<Longrightarrow> bind_result m f = bind_result m g"
  by (simp add: bind_result_def split: sum.splits)

lemma create_interfaces_closed:
  "create_interfaces row =
     bind_result (str_method (\<lambda>s. lower (strip s)) (row_get row ''Stacking'' (Str []))) (\<lambda>stacking_str.
     bind_result (bind_result (row_getitem row ''Model'') (str_method upper)) (\<lambda>model_name.
     bind_result (bind_result (row_getitem row ''GigabitEthernet Copper'') int_of_cell) (\<lambda>n1.
     bind_result (bind_result (row_getitem row ''GigabitEthernet SFP'') int_of_cell) (\<lambda>n2.
     bind_result (bind_result (row_getitem row ''GigabitEthernet Combo'') int_of_cell) (\<lambda>n3.
     bind_result (bind_result (row_getitem row ''TwoGigabitEthernet'') int_of_cell) (\<lambda>n4.
     bind_result (bind_result (row_getitem row ''TenGigabitEthernet Copper'') int_of_cell) (\<lambda>n5.
     bind_result (bind_result (row_getitem row ''TenGigabitEthernet SFP+'') int_of_cell) (\<lambda>n6.
     bind_result (bind_result (row_getitem row ''TenGigabitEthernet Combo'') int_of_cell) (\<lambda>n7.
     bind_result (row_getitem row ''OOB'') (\<lambda>oob.
     bind_result (oob_test oob) (\<lambda>has_oob.
     Inr (interface_list (stacking_str = ''true'')
            (py_in ''P-'' model_name \<or> py_in ''FP-'' model_name)
            (nat n1) (nat n2) (nat n3) (nat n4) (nat n5) (nat n6) (nat n7) has_oob))))))))))))"
  apply (simp only: create_interfaces_def Let_def for_range_append1 prod.case oob_test_def)
  apply (intro bind_result_cong)
  apply (simp add: interface_list_def numbered_def del: upt_Suc)
  done

lemma bind_result_Inr: "bind_result m f = Inr y \<longleftrightarrow> (\<exists>v. m = Inr v \<and> f v = Inr y)"
  by (cases m) (simp_all add: bind_result_def)

lemma bind_result_Inl: "m = Inl e \<Longrightarrow> bind_result m f = Inl e"
  by (simp add: bind_result_def)

lemma create_interfaces_InrE:
  assumes "create_interfaces row = Inr ifs"
  obtains stacking_str model_name n1 n2 n3 n4 n5 n6 n7 oob has_oob where
    "str_method (\<lambda>s. lower (strip s)) (row_get row ''Stacking'' (Str [])) = Inr stacking_str"
    "model_name_of row = Inr model_name"
    "count_of row ''GigabitEthernet Copper'' = Inr n1"
    "count_of row ''GigabitEthernet SFP'' = Inr n2"
    "count_of row ''GigabitEthernet Combo'' = Inr n3"
    "count_of row ''TwoGigabitEthernet'' = Inr n4"
    "count_of row ''TenGigabitEthernet Copper'' = Inr n5"
    "count_of row ''TenGigabitEthernet SFP+'' = Inr n6"
    "count_of row ''TenGigabitEthernet Combo'' = Inr n7"
    "row_getitem row ''OOB'' = Inr oob"
    "oob_test oob = Inr has_oob"
    "ifs = interface_list (stacking_str = ''true'')
             (py_in ''P-'' model_name \<or> py_in ''FP-'' model_name)
             (nat n1) (nat n2) (nat n3) (nat n4) (nat n5) (nat n6) (nat n7) has_oob"
  using assms
  unfolding create_interfaces_closed count_of_def [symmetric] model_name_of_def [symmetric]
    bind_result_Inr
  by (elim exE conjE) simp

section \<open>Integer literals and the OOB test\<close>










text \<open>
  The test raises where \<^verbatim>\<open>isdigit()\<close> holds and \<^verbatim>\<open>int()\<close> refuses: on a superscript
  digit, for one.
\<close>

lemma oob_test_superscript: "oob_test (Str [CHR 0xB2]) = Inl ValueError"
  by (simp add: oob_test_def isdigit_def is_digit_def digits_def int_of_cell_def bind_result_def
      py_int_defs)

section \<open>The OOB interface\<close>




lemma row_getitem_Inr: "row_getitem row k = Inr v \<longleftrightarrow> row k = Some v"
  by (simp add: row_getitem_def split: option.splits)


section \<open>The interfaces of concrete rows\<close>

lemma py_int_0: "py_int ''0'' = Some 0"
  by (simp add: py_int_defs)

lemma py_int_1: "py_int ''1'' = Some 1"
  by (simp add: py_int_defs)

lemma py_int_2: "py_int ''2'' = Some 2"
  by (simp add: py_int_defs)

lemma str_of_nat_1: "str_of_nat (Suc 0) = ''1''"
  by (simp add: str_of_nat.simps digit_char_def digits_def)

lemma str_of_nat_2: "str_of_nat (Suc (Suc 0)) = ''2''"
  by (simp add: str_of_nat.simps digit_char_def digits_def)

lemma str_of_nat_3: "str_of_nat (Suc (Suc (Suc 0))) = ''3''"
  by (simp add: str_of_nat.simps digit_char_def digits_def)

lemma count_of_Str: "row k = Some (Str s) \<Longrightarrow> py_int s = Some n \<Longrightarrow> count_of row k = Inr n"
  by (simp add: count_of_def row_getitem_def bind_result_def int_of_cell_def)

lemma names_2_1_0_0_1_0_0:
  "map (\<lambda>i. iface_get i ''name'') (interface_list st poe 2 1 0 0 1 0 0 False)
     = (if st
        then [Some (VStr ''GigabitEthernet1/0/1''), Some (VStr ''GigabitEthernet1/0/2''),
              Some (VStr ''GigabitEthernet1/0/3''), Some (VStr ''TenGigabitEthernet1/0/1''),
              Some (VStr ''Vlan1'')]
        else [Some (VStr ''GigabitEthernet1''), Some (VStr ''GigabitEthernet2''),
              Some (VStr ''GigabitEthernet3''), Some (VStr ''TenGigabitEthernet1''),
              Some (VStr ''Vlan1'')])"
  by (simp add: interface_list_def numbered_def iface_get_def upt_conv_Cons
      str_of_nat_1 str_of_nat_2 str_of_nat_3 eval_nat_numeral)

text \<open>
  Claim C2. For a row with the counts 2 Gigabit copper, 1 Gigabit SFP, 0 combo, 0 multi-gig,
  1 Ten-gigabit copper, 0 Ten-gigabit SFP+, 0 Ten-gigabit combo and an OOB field that
  produces no interface, \<open>create_interfaces\<close> returns 5 interfaces; their names are
  \<^verbatim>\<open>GigabitEthernet1/0/1\<close>, \<^verbatim>\<open>GigabitEthernet1/0/2\<close>, \<^verbatim>\<open>GigabitEthernet1/0/3\<close>,
  \<^verbatim>\<open>TenGigabitEthernet1/0/1\<close>, \<^verbatim>\<open>Vlan1\<close> when the row is stacking and
  \<^verbatim>\<open>GigabitEthernet1\<close>, \<^verbatim>\<open>GigabitEthernet2\<close>, \<^verbatim>\<open>GigabitEthernet3\<close>,
  \<^verbatim>\<open>TenGigabitEthernet1\<close>, \<^verbatim>\<open>Vlan1\<close> when it is not: the Ten-gigabit numbering
  starts again at 1.
\<close>

theorem names_of_example_counts:
  assumes "row ''Model'' = Some (Str m)"
    and "row_get row ''Stacking'' (Str []) = Str st"
    and "row ''GigabitEthernet Copper'' = Some (Str ''2'')"
    and "row ''GigabitEthernet SFP'' = Some (Str ''1'')"
    and "row ''GigabitEthernet Combo'' = Some (Str ''0'')"
    and "row ''TwoGigabitEthernet'' = Some (Str ''0'')"
    and "row ''TenGigabitEthernet Copper'' = Some (Str ''1'')"
    and "row ''TenGigabitEthernet SFP+'' = Some (Str ''0'')"
    and "row ''TenGigabitEthernet Combo'' = Some (Str ''0'')"
    and "row ''OOB'' = Some oob" and "oob_test oob = Inr False"
  shows "\<exists>ifs. create_interfaces row = Inr ifs \<and> length ifs = 5
           \<and> map (\<lambda>i. iface_get i ''name'') ifs
               = (if lower (strip st) = ''true''
                  then [Some (VStr ''GigabitEthernet1/0/1''), Some (VStr ''GigabitEthernet1/0/2''),
                        Some (VStr ''GigabitEthernet1/0/3''), Some (VStr ''TenGigabitEthernet1/0/1''),
                        Some (VStr ''Vlan1'')]
                  else [Some (VStr ''GigabitEthernet1''), Some (VStr ''GigabitEthernet2''),
                        Some (VStr ''GigabitEthernet3''), Some (VStr ''TenGigabitEthernet1''),
                        Some (VStr ''Vlan1'')])"
proof -
  let ?ifs = "interface_list (lower (strip st) = ''true'')
                (py_in ''P-'' (upper m) \<or> py_in ''FP-'' (upper m)) 2 1 0 0 1 0 0 False"
  have counts:
    "count_of row ''GigabitEthernet Copper'' = Inr 2"
    "count_of row ''GigabitEthernet SFP'' = Inr 1"
    "count_of row ''GigabitEthernet Combo'' = Inr 0"
    "count_of row ''TwoGigabitEthernet'' = Inr 0"
    "count_of row ''TenGigabitEthernet Copper'' = Inr 1"
    "count_of row ''TenGigabitEthernet SFP+'' = Inr 0"
    "count_of row ''TenGigabitEthernet Combo'' = Inr 0"
    using assms by (simp_all add: count_of_Str py_int_0 py_int_1 py_int_2)
  have "create_interfaces row = Inr ?ifs"
    unfolding create_interfaces_closed count_of_def [symmetric]
    using assms(1,2,10,11)
    by (simp add: counts bind_result_def str_method_def row_getitem_def)
  moreover have "length ?ifs = 5"
    by (simp add: interface_list_def numbered_def)
  ultimately show ?thesis
    using names_2_1_0_0_1_0_0 [of "lower (strip st) = ''true''"] by simp
qed

lemma create_interfaces_of_counts:
  assumes "row ''Model'' = Some (Str m)"
    and "row_get row ''Stacking'' (Str []) = Str st"
    and "count_of row ''GigabitEthernet Copper'' = Inr n1"
    and "count_of row ''GigabitEthernet SFP'' = Inr n2"
    and "count_of row ''GigabitEthernet Combo'' = Inr n3"
    and "count_of row ''TwoGigabitEthernet'' = Inr n4"
    and "count_of row ''TenGigabitEthernet Copper'' = Inr n5"
    and "count_of row ''TenGigabitEthernet SFP+'' = Inr n6"
    and "count_of row ''TenGigabitEthernet Combo'' = Inr n7"
    and "row ''OOB'' = Some oob"
  shows "create_interfaces row =
     bind_result (oob_test oob) (\<lambda>has_oob.
       Inr (interface_list (lower (strip st) = ''true'')
              (py_in ''P-'' (upper m) \<or> py_in ''FP-'' (upper m))
              (nat n1) (nat n2) (nat n3) (nat n4) (nat n5) (nat n6) (nat n7) has_oob))"
  unfolding create_interfaces_closed count_of_def [symmetric]
  using assms by (simp add: bind_result_def str_method_def row_getitem_def)

lemma example_row_eval:
  "create_interfaces (example_row m st ob) =
     bind_result (oob_test (Str ob)) (\<lambda>has_oob.
       Inr (interface_list (lower (strip st) = ''true'')
              (py_in ''P-'' (upper m) \<or> py_in ''FP-'' (upper m)) 2 1 0 0 1 0 0 has_oob))"
proof -
  have "create_interfaces (example_row m st ob) =
     bind_result (oob_test (Str ob)) (\<lambda>has_oob.
       Inr (interface_list (lower (strip st) = ''true'')
              (py_in ''P-'' (upper m) \<or> py_in ''FP-'' (upper m))
              (nat 2) (nat 1) (nat 0) (nat 0) (nat 1) (nat 0) (nat 0) has_oob))"
    by (rule create_interfaces_of_counts)
       (simp_all add: count_of_Str py_int_0 py_int_1 py_int_2 example_row_def row_get_def)
  then show ?thesis by simp
qed

lemma lower_strip_True: "lower (strip (CHR 0xA0 # '' True'')) = ''true''"
  by (simp add: case_defs strip_def is_space_def)

lemma lower_strip_false: "lower (strip ''false'') = ''false''"
  by (simp add: case_defs strip_def is_space_def)

lemma oob_test_0: "oob_test (Str ''0'') = Inr False"
  by (simp add: oob_test_def int_of_cell_def bind_result_def py_int_0 isdigit_def is_digit_def digits_def)

lemma oob_test_2: "oob_test (Str ''2'') = Inr True"
  by (simp add: oob_test_def int_of_cell_def bind_result_def py_int_2 isdigit_def is_digit_def digits_def)

lemma oob_test_empty: "oob_test (Str []) = Inr False"
  by (simp add: oob_test_def)

theorem names_of_example_counts_witness:
  "(\<exists>ifs. create_interfaces (example_row ''C1300-8T-E-2G'' (CHR 0xA0 # '' True'') ''0'') = Inr ifs
      \<and> length ifs = 5
      \<and> map (\<lambda>i. iface_get i ''name'') ifs
          = [Some (VStr ''GigabitEthernet1/0/1''), Some (VStr ''GigabitEthernet1/0/2''),
             Some (VStr ''GigabitEthernet1/0/3''), Some (VStr ''TenGigabitEthernet1/0/1''),
             Some (VStr ''Vlan1'')])
   \<and> (\<exists>ifs. create_interfaces (example_row ''C1300-8T-E-2G'' ''false'' []) = Inr ifs
      \<and> length ifs = 5
      \<and> map (\<lambda>i. iface_get i ''name'') ifs
          = [Some (VStr ''GigabitEthernet1''), Some (VStr ''GigabitEthernet2''),
             Some (VStr ''GigabitEthernet3''), Some (VStr ''TenGigabitEthernet1''),
             Some (VStr ''Vlan1'')])"
  using
    names_of_example_counts [of "example_row ''C1300-8T-E-2G'' (CHR 0xA0 # '' True'') ''0''"
      "''C1300-8T-E-2G''" "CHR 0xA0 # '' True''" "Str ''0''"]
    names_of_example_counts [of "example_row ''C1300-8T-E-2G'' ''false'' []"
      "''C1300-8T-E-2G''" "''false''" "Str []"]
  by (simp add: example_row_def row_get_def oob_test_0 oob_test_empty
      lower_strip_True lower_strip_false)


section \<open>The trailing Vlan1 interface\<close>

lemma interface_list_last:
  "interface_list st poe n1 n2 n3 n4 n5 n6 n7 oob \<noteq> []
   \<and> last (interface_list st poe n1 n2 n3 n4 n5 n6 n7 oob) = vlan1"
  by (simp add: interface_list_def Let_def vlan1_def)

text \<open>
  Claim C9. On every row for which \<open>create_interfaces\<close> returns a list, the list is not
  empty and its last element is the interface named \<^verbatim>\<open>Vlan1\<close>, of type \<^verbatim>\<open>virtual\<close>,
  enabled and not management-only, whatever the counts, the OOB field and the stacking
  flag are.
\<close>

theorem vlan1_is_last:
  assumes "create_interfaces row = Inr ifs"
  shows "ifs \<noteq> []
         \<and> last ifs = [(''name'', VStr ''Vlan1''), (''type'', VStr ''virtual''),
                        (''enabled'', VBool True), (''mgmt_only'', VBool False)]"
  using assms interface_list_last unfolding vlan1_def
  by (elim create_interfaces_InrE) simp

theorem vlan1_is_last_witness:
  "\<exists>ifs. create_interfaces (example_row ''C1300-8FP-2G'' ''true'' ''2'') = Inr ifs
     \<and> ifs \<noteq> []
     \<and> last ifs = [(''name'', VStr ''Vlan1''), (''type'', VStr ''virtual''),
                    (''enabled'', VBool True), (''mgmt_only'', VBool False)]"
proof -
  obtain ifs where r: "create_interfaces (example_row ''C1300-8FP-2G'' ''true'' ''2'') = Inr ifs"
    by (simp add: example_row_eval oob_test_2 bind_result_def)
  from vlan1_is_last [OF r] r show ?thesis by simp
qed

section \<open>Substrings and the PoE detection\<close>

lemma take_eq_iff_prefix: "take (length sub) s = sub \<longleftrightarrow> (\<exists>ss. s = sub @ ss)"
  by (metis append_eq_conv_conj append_take_drop_id)

lemma py_in_iff: "py_in sub s \<longleftrightarrow> (\<exists>ps ss. s = ps @ sub @ ss)"
proof (induction s)
  case Nil
  then show ?case by simp
next
  case (Cons c cs)
  have "(\<exists>ps ss. c # cs = ps @ sub @ ss) \<longleftrightarrow>
        (\<exists>ss. c # cs = sub @ ss) \<or> (\<exists>ps ss. cs = ps @ sub @ ss)"
  proof
    assume "\<exists>ps ss. c # cs = ps @ sub @ ss"
    then obtain ps ss where eq: "c # cs = ps @ sub @ ss" by blast
    show "(\<exists>ss. c # cs = sub @ ss) \<or> (\<exists>ps ss. cs = ps @ sub @ ss)"
    proof (cases ps)
      case Nil
      with eq show ?thesis by auto
    next
      case (Cons p ps')
      with eq have "cs = ps' @ sub @ ss" by simp
      then show ?thesis by blast
    qed
  next
    assume "(\<exists>ss. c # cs = sub @ ss) \<or> (\<exists>ps ss. cs = ps @ sub @ ss)"
    then show "\<exists>ps ss. c # cs = ps @ sub @ ss"
    proof
      assume "\<exists>ss. c # cs = sub @ ss"
      then obtain ss where "c # cs = [] @ sub @ ss" by auto
      then show ?thesis by blast
    next
      assume "\<exists>ps ss. cs = ps @ sub @ ss"
      then obtain ps ss where "c # cs = (c # ps) @ sub @ ss" by auto
      then show ?thesis by blast
    qed
  qed
  with Cons show ?case
    by (simp only: py_in.simps take_eq_iff_prefix)
qed

lemma FP_has_P: "py_in ''FP-'' s \<Longrightarrow> py_in ''P-'' s"
proof -
  assume "py_in ''FP-'' s"
  then obtain ps ss where "s = ps @ ''FP-'' @ ss" unfolding py_in_iff by blast
  then have "s = (ps @ ''F'') @ ''P-'' @ ss" by simp
  then show ?thesis unfolding py_in_iff by blast
qed

text \<open>
  Claim C10. For every model string \<open>m\<close>, the condition of the PoE detection,
  \<^verbatim>\<open>'P-' in m.upper() or 'FP-' in m.upper()\<close>, is equivalent to its first disjunct
  alone: wherever \<^verbatim>\<open>FP-\<close> occurs, \<^verbatim>\<open>P-\<close> occurs one character later.
\<close>

theorem poe_condition_FP_redundant:
  "(py_in ''P-'' (upper m) \<or> py_in ''FP-'' (upper m)) = py_in ''P-'' (upper m)"
  using FP_has_P by blast

theorem poe_condition_FP_redundant_witness:
  "(py_in ''P-'' (upper ''c1300-8fp-2g'') \<or> py_in ''FP-'' (upper ''c1300-8fp-2g''))
     = py_in ''P-'' (upper ''c1300-8fp-2g'') \<and> py_in ''FP-'' (upper ''c1300-8fp-2g'')"
  using poe_condition_FP_redundant [of "''c1300-8fp-2g''"]
  by (simp add: case_defs)

section \<open>Malformed counts\<close>

text \<open>Whether \<open>create_interfaces\<close> returns a list depends on the cells alone.\<close>

lemma isl_bind_result: "isl m \<Longrightarrow> isl (bind_result m f)"
  by (cases m) (simp_all add: bind_result_def)

lemma isl_bind_result_fun: "(\<And>v. isl (f v)) \<Longrightarrow> isl (bind_result m f)"
  by (cases m) (simp_all add: bind_result_def)

lemma create_interfaces_needs_counts:
  "\<forall>k \<in> set count_fields. isl (count_of row k) \<longrightarrow> isl (create_interfaces row)"
  unfolding count_fields_def create_interfaces_closed count_of_def [symmetric]
  by (simp add: isl_bind_result isl_bind_result_fun)

lemma count_of_fails:
  "isl (count_of row k) \<longleftrightarrow>
     row k = None \<or> row k = Some PyNone \<or> (\<exists>s. row k = Some (Str s) \<and> py_int s = None)"
  by (auto simp: count_of_def row_getitem_def bind_result_def int_of_cell_def
      split: option.splits cell.splits)

text \<open>
  Claim C8. A row in which one of the seven count fields is absent, is \<^verbatim>\<open>None\<close> or
  holds a string that \<^verbatim>\<open>int()\<close> does not accept makes \<open>create_interfaces\<close> raise: it
  returns no interface list.
\<close>

theorem bad_count_raises:
  assumes "k \<in> set count_fields"
    and "row k = None \<or> row k = Some PyNone \<or> (\<exists>s. row k = Some (Str s) \<and> py_int s = None)"
  shows "\<exists>e. create_interfaces row = Inl e"
proof -
  from assms(2) have "isl (count_of row k)" by (simp only: count_of_fails)
  with assms(1) have "isl (create_interfaces row)"
    using create_interfaces_needs_counts by blast
  then show ?thesis by (cases "create_interfaces row") simp_all
qed

lemma py_int_abc: "py_int ''abc'' = None"
  by (simp add: py_int_defs)

text \<open>
  The white space of \<^verbatim>\<open>int()\<close>: a no-break space around the digits is dropped, the
  separator U+001C is not.
\<close>

lemma py_int_nbsp: "py_int (''2'' @ [CHR 0xA0]) = Some 2"
  by (simp add: py_int_defs)

lemma py_int_fs: "py_int (CHR 0x1C # ''2'') = None"
  by (simp add: py_int_defs)

theorem bad_count_raises_witness:
  "(\<exists>e. create_interfaces
           ((example_row ''C1300-8T-E-2G'' ''false'' ''0'')(''TwoGigabitEthernet'' := None)) = Inl e)
   \<and> (\<exists>e. create_interfaces
           ((example_row ''C1300-8T-E-2G'' ''false'' ''0'')(''GigabitEthernet SFP'' \<mapsto> Str ''abc'')) = Inl e)
   \<and> (\<exists>e. create_interfaces
           ((example_row ''C1300-8T-E-2G'' ''false'' ''0'')(''TenGigabitEthernet Combo'' \<mapsto> PyNone)) = Inl e)
   \<and> (\<exists>e. create_interfaces
           ((example_row ''C1300-8T-E-2G'' ''false'' ''0'')
              (''GigabitEthernet Copper'' \<mapsto> Str (CHR 0x1C # ''2''))) = Inl e)"
  using
    bad_count_raises [of "''TwoGigabitEthernet''"
      "(example_row ''C1300-8T-E-2G'' ''false'' ''0'')(''TwoGigabitEthernet'' := None)"]
    bad_count_raises [of "''GigabitEthernet SFP''"
      "(example_row ''C1300-8T-E-2G'' ''false'' ''0'')(''GigabitEthernet SFP'' \<mapsto> Str ''abc'')"]
    bad_count_raises [of "''TenGigabitEthernet Combo''"
      "(example_row ''C1300-8T-E-2G'' ''false'' ''0'')(''TenGigabitEthernet Combo'' \<mapsto> PyNone)"]
    bad_count_raises [of "''GigabitEthernet Copper''"
      "(example_row ''C1300-8T-E-2G'' ''false'' ''0'')
         (''GigabitEthernet Copper'' \<mapsto> Str (CHR 0x1C # ''2''))"]
  by (simp add: count_fields_def py_int_abc py_int_fs)

text \<open>
  A negative count is a literal that \<^verbatim>\<open>int()\<close> accepts; its loop runs no iteration.
\<close>

lemma py_int_negative: "py_int ''-3'' = Some (- 3)"
  by (simp add: py_int_defs)

lemma for_range_nonpositive: "n \<le> 0 \<Longrightarrow> for_range n body s = s"
  by (simp add: for_range_def)


section \<open>PoE attributes\<close>

lemma model_name_of_Inr:
  "model_name_of row = Inr mn \<longleftrightarrow> (\<exists>m. row ''Model'' = Some (Str m) \<and> mn = upper m)"
  by (auto simp: model_name_of_def row_getitem_def bind_result_def str_method_def
      split: option.splits cell.splits)

lemma numbered_length: "length (numbered base attrs start n) = n"
  by (simp add: numbered_def)

lemma numbered_no_poe:
  "map_of attrs ''poe_mode'' = None \<Longrightarrow> map_of attrs ''poe_type'' = None \<Longrightarrow>
   i \<in> set (numbered base attrs start n) \<Longrightarrow> no_poe_keys i"
  by (auto simp: numbered_def no_poe_keys_def iface_get_def)

lemma interface_list_split:
  "\<exists>copper rest. interface_list st poe n1 n2 n3 n4 n5 n6 n7 has_oob = copper @ rest
     \<and> length copper = n1
     \<and> (\<forall>i \<in> set copper. iface_get i ''type'' = Some (VStr ''1000base-t'')
           \<and> (if poe then has_poe i else no_poe_keys i))
     \<and> (\<forall>i \<in> set rest. no_poe_keys i)"
proof -
  define b1 where "b1 = (if st then ''GigabitEthernet1/0/'' else ''GigabitEthernet'')"
  define b10 where "b10 = (if st then ''TenGigabitEthernet1/0/'' else ''TenGigabitEthernet'')"
  define copper where "copper = numbered b1
           ([(''type'', VStr ''1000base-t''), (''enabled'', VBool True)]
            @ (if poe then [(''poe_mode'', VStr ''pse''), (''poe_type'', VStr ''type2-ieee802.3at'')]
               else [])) 1 n1"
  define rest where "rest = numbered b1
             [(''type'', VStr ''1000base-x-sfp''), (''enabled'', VBool True)] (1 + n1) n2
         @ numbered b1
             [(''type'', VStr ''1000base-x-sfp''), (''description'', VStr ''SFP/RJ45 Combo''),
              (''enabled'', VBool True)] (1 + n1 + n2) n3
         @ numbered b1
             [(''type'', VStr ''2.5gbase-t''), (''enabled'', VBool True)] (1 + n1 + n2 + n3) n4
         @ numbered b10
             [(''type'', VStr ''10gbase-t''), (''enabled'', VBool True)] 1 n5
         @ numbered b10
             [(''type'', VStr ''10gbase-x-sfpp''), (''enabled'', VBool True)] (1 + n5) n6
         @ numbered b10
             [(''type'', VStr ''10gbase-x-sfpp''), (''description'', VStr ''SFP+/RJ45 Combo''),
              (''enabled'', VBool True)] (1 + n5 + n6) n7
         @ (if has_oob then [oob_iface] else [])
         @ [vlan1]"
  have "interface_list st poe n1 n2 n3 n4 n5 n6 n7 has_oob = copper @ rest"
    unfolding interface_list_def Let_def copper_def rest_def b1_def b10_def oob_iface_def vlan1_def
    by simp
  moreover have "length copper = n1" by (simp add: copper_def numbered_length)
  moreover have "\<forall>i \<in> set copper. iface_get i ''type'' = Some (VStr ''1000base-t'')
           \<and> (if poe then has_poe i else no_poe_keys i)"
    by (auto simp: copper_def numbered_def iface_get_def has_poe_def no_poe_keys_def)
  moreover have "no_poe_keys oob_iface" "no_poe_keys vlan1"
    by (simp_all add: no_poe_keys_def iface_get_def oob_iface_def vlan1_def)
  then have "\<forall>i \<in> set rest. no_poe_keys i"
    unfolding rest_def by (auto elim!: numbered_no_poe [rotated 2])
  ultimately show ?thesis by blast
qed

text \<open>
  Claim C5. On every row for which \<open>create_interfaces\<close> returns a list, the first
  interfaces of the list, as many as the Gigabit copper count, are the Gigabit copper ones
  (category 1). An interface of the list carries \<^verbatim>\<open>poe_mode: pse\<close> and
  \<^verbatim>\<open>poe_type: type2-ieee802.3at\<close> if and only if it is one of them and the uppercased
  model name contains \<^verbatim>\<open>P-\<close> or \<^verbatim>\<open>FP-\<close>; every other interface has neither key.
\<close>

theorem poe_only_on_copper:
  assumes "create_interfaces row = Inr ifs"
  shows "\<exists>m n. row ''Model'' = Some (Str m)
           \<and> count_of row ''GigabitEthernet Copper'' = Inr n
           \<and> nat n \<le> length ifs
           \<and> (\<forall>k < nat n. iface_get (ifs ! k) ''type'' = Some (VStr ''1000base-t''))
           \<and> (\<forall>k < length ifs.
                 if k < nat n \<and> (py_in ''P-'' (upper m) \<or> py_in ''FP-'' (upper m))
                 then has_poe (ifs ! k) else no_poe_keys (ifs ! k))"
proof -
  from assms obtain st mn n1 n2 n3 n4 n5 n6 n7 has_oob where
    mn: "model_name_of row = Inr mn"
    and n1: "count_of row ''GigabitEthernet Copper'' = Inr n1"
    and ifs: "ifs = interface_list st (py_in ''P-'' mn \<or> py_in ''FP-'' mn)
                (nat n1) (nat n2) (nat n3) (nat n4) (nat n5) (nat n6) (nat n7) has_oob"
    by (elim create_interfaces_InrE) blast
  from mn obtain m where m: "row ''Model'' = Some (Str m)" and up: "mn = upper m"
    unfolding model_name_of_Inr by blast
  let ?poe = "py_in ''P-'' (upper m) \<or> py_in ''FP-'' (upper m)"
  from ifs up obtain copper rest where
    split: "ifs = copper @ rest" and len: "length copper = nat n1"
    and copper: "\<forall>i \<in> set copper. iface_get i ''type'' = Some (VStr ''1000base-t'')
                   \<and> (if ?poe then has_poe i else no_poe_keys i)"
    and rest: "\<forall>i \<in> set rest. no_poe_keys i"
    using interface_list_split by metis
  have first: "ifs ! k = copper ! k \<and> copper ! k \<in> set copper" if "k < nat n1" for k
    using that len split by (simp add: nth_append)
  have later: "ifs ! k \<in> set rest" if "k < length ifs" "\<not> k < nat n1" for k
    using that len split by (simp add: nth_append)
  have "nat n1 \<le> length ifs" using split len by simp
  moreover have "\<forall>k < nat n1. iface_get (ifs ! k) ''type'' = Some (VStr ''1000base-t'')"
    using first copper by simp
  moreover have "\<forall>k < length ifs.
                 if k < nat n1 \<and> ?poe then has_poe (ifs ! k) else no_poe_keys (ifs ! k)"
  proof (intro allI impI)
    fix k assume k: "k < length ifs"
    show "if k < nat n1 \<and> ?poe then has_poe (ifs ! k) else no_poe_keys (ifs ! k)"
    proof (cases "k < nat n1")
      case True
      with first [of k] copper show ?thesis by (auto split: if_splits)
    next
      case False
      with later [OF k] rest show ?thesis by simp
    qed
  qed
  ultimately show ?thesis using m n1 by blast
qed

lemma has_poe_FP: "py_in ''P-'' (upper ''C1300-8fp-2G'') \<or> py_in ''FP-'' (upper ''C1300-8fp-2G'')"
  by (simp add: case_defs)

lemma no_poe_T: "\<not> (py_in ''P-'' (upper ''C1300-8T-E-2G'') \<or> py_in ''FP-'' (upper ''C1300-8T-E-2G''))"
  by (simp add: case_defs)

lemma example_row_copper: "count_of (example_row m st ob) ''GigabitEthernet Copper'' = Inr 2"
  by (simp add: count_of_Str py_int_2 example_row_def)

lemma example_row_length:
  "create_interfaces (example_row m st ''0'') = Inr ifs \<Longrightarrow> length ifs = 5"
  by (auto simp: example_row_eval oob_test_0 bind_result_def interface_list_def numbered_def)

theorem poe_only_on_copper_witness:
  "(\<exists>ifs. create_interfaces (example_row ''C1300-8fp-2G'' ''false'' ''0'') = Inr ifs
      \<and> has_poe (ifs ! 0) \<and> has_poe (ifs ! 1)
      \<and> no_poe_keys (ifs ! 2) \<and> no_poe_keys (ifs ! 3) \<and> no_poe_keys (ifs ! 4))
   \<and> (\<exists>ifs. create_interfaces (example_row ''C1300-8T-E-2G'' ''false'' ''0'') = Inr ifs
      \<and> no_poe_keys (ifs ! 0) \<and> no_poe_keys (ifs ! 1)
      \<and> no_poe_keys (ifs ! 2) \<and> no_poe_keys (ifs ! 3) \<and> no_poe_keys (ifs ! 4))"
proof -
  let ?rp = "example_row ''C1300-8fp-2G'' ''false'' ''0''"
  let ?rt = "example_row ''C1300-8T-E-2G'' ''false'' ''0''"
  obtain ifsp where p: "create_interfaces ?rp = Inr ifsp"
    by (simp add: example_row_eval oob_test_0 bind_result_def)
  obtain ifst where t: "create_interfaces ?rt = Inr ifst"
    by (simp add: example_row_eval oob_test_0 bind_result_def)
  have model: "?rp ''Model'' = Some (Str ''C1300-8fp-2G'')" "?rt ''Model'' = Some (Str ''C1300-8T-E-2G'')"
    by (simp_all add: example_row_def)
  from poe_only_on_copper [OF p] model(1) example_row_copper [of "''C1300-8fp-2G''" "''false''" "''0''"]
    example_row_length [OF p] has_poe_FP
  have "\<forall>k < 5. if k < 2 then has_poe (ifsp ! k) else no_poe_keys (ifsp ! k)"
    by auto
  then have "has_poe (ifsp ! 0) \<and> has_poe (ifsp ! 1)
      \<and> no_poe_keys (ifsp ! 2) \<and> no_poe_keys (ifsp ! 3) \<and> no_poe_keys (ifsp ! 4)"
    by (auto dest: spec [of _ 0] spec [of _ 1] spec [of _ 2] spec [of _ 3] spec [of _ 4])
  moreover
  from poe_only_on_copper [OF t] model(2) example_row_length [OF t] no_poe_T
  have "\<forall>k < 5. no_poe_keys (ifst ! k)"
    by auto
  then have "no_poe_keys (ifst ! 0) \<and> no_poe_keys (ifst ! 1)
      \<and> no_poe_keys (ifst ! 2) \<and> no_poe_keys (ifst ! 3) \<and> no_poe_keys (ifst ! 4)"
    by simp
  ultimately show ?thesis using p t by simp
qed

section \<open>Cropping to the opaque pixels\<close>

lemma sorted_hd_le: "sorted xs \<Longrightarrow> x \<in> set xs \<Longrightarrow> hd xs \<le> (x::nat)"
  by (cases xs) auto

lemma sorted_le_last: "sorted xs \<Longrightarrow> x \<in> set xs \<Longrightarrow> (x::nat) \<le> last xs"
  by (induction xs) (auto split: if_splits)

lemma sorted_nonzero_columns: "sorted (nonzero_columns band)"
  by (cases "img_size band") (simp add: nonzero_columns_def sorted_wrt_filter)

lemma sorted_nonzero_rows: "sorted (nonzero_rows band)"
  by (cases "img_size band") (simp add: nonzero_rows_def sorted_wrt_filter)

lemma set_nonzero_columns:
  "x \<in> set (nonzero_columns (getchannel_A img)) \<longleftrightarrow> (\<exists>y. nonzero_alpha_at img x y)"
  by (cases "img_size img")
     (auto simp: nonzero_columns_def getchannel_A_def nonzero_alpha_at_def case_prod_beta)

lemma set_nonzero_rows:
  "y \<in> set (nonzero_rows (getchannel_A img)) \<longleftrightarrow> (\<exists>x. nonzero_alpha_at img x y)"
  by (cases "img_size img")
     (auto simp: nonzero_rows_def getchannel_A_def nonzero_alpha_at_def case_prod_beta)

lemma getbbox_None:
  "getbbox (getchannel_A img) = None \<longleftrightarrow> \<not> (\<exists>x y. nonzero_alpha_at img x y)"
proof -
  have "nonzero_columns (getchannel_A img) = []
          \<longleftrightarrow> (\<forall>x. x \<notin> set (nonzero_columns (getchannel_A img)))"
    by (cases "nonzero_columns (getchannel_A img)") auto
  then have "nonzero_columns (getchannel_A img) = [] \<longleftrightarrow> \<not> (\<exists>x y. nonzero_alpha_at img x y)"
    by (simp add: set_nonzero_columns)
  moreover
  have "nonzero_rows (getchannel_A img) = []
          \<longleftrightarrow> (\<forall>y. y \<notin> set (nonzero_rows (getchannel_A img)))"
    by (cases "nonzero_rows (getchannel_A img)") auto
  then have "nonzero_rows (getchannel_A img) = [] \<longleftrightarrow> \<not> (\<exists>x y. nonzero_alpha_at img x y)"
    by (simp add: set_nonzero_rows) blast
  ultimately show ?thesis by (simp add: getbbox_def Let_def)
qed

lemma getbbox_Some:
  assumes "getbbox (getchannel_A img) = Some (l, t, r, b)"
  shows "encloses img (l, t, r, b)"
    and "\<And>l' t' r' b'. encloses img (l', t', r', b') \<Longrightarrow> l' \<le> l \<and> t' \<le> t \<and> r \<le> r' \<and> b \<le> b'"
    and "l < r \<and> r \<le> fst (img_size img) \<and> t < b \<and> b \<le> snd (img_size img)"
proof -
  let ?xs = "nonzero_columns (getchannel_A img)"
  let ?ys = "nonzero_rows (getchannel_A img)"
  from assms have ne: "?xs \<noteq> []" "?ys \<noteq> []"
    and box: "l = hd ?xs" "t = hd ?ys" "r = Suc (last ?xs)" "b = Suc (last ?ys)"
    by (auto simp: getbbox_def Let_def split: if_splits)
  have in_xs: "\<And>x y. nonzero_alpha_at img x y \<Longrightarrow> x \<in> set ?xs"
    and in_ys: "\<And>x y. nonzero_alpha_at img x y \<Longrightarrow> y \<in> set ?ys"
    using set_nonzero_columns set_nonzero_rows by blast+
  show "encloses img (l, t, r, b)"
    unfolding encloses_def box
    using sorted_hd_le [OF sorted_nonzero_columns in_xs] sorted_le_last [OF sorted_nonzero_columns in_xs]
      sorted_hd_le [OF sorted_nonzero_rows in_ys] sorted_le_last [OF sorted_nonzero_rows in_ys]
    by (auto simp: less_Suc_eq_le)
  from ne have "hd ?xs \<in> set ?xs" "last ?xs \<in> set ?xs" "hd ?ys \<in> set ?ys" "last ?ys \<in> set ?ys"
    by simp_all
  then obtain y1 y2 x1 x2 where ex:
    "nonzero_alpha_at img (hd ?xs) y1" "nonzero_alpha_at img (last ?xs) y2"
    "nonzero_alpha_at img x1 (hd ?ys)" "nonzero_alpha_at img x2 (last ?ys)"
    unfolding set_nonzero_columns set_nonzero_rows by blast
  show "l' \<le> l \<and> t' \<le> t \<and> r \<le> r' \<and> b \<le> b'" if "encloses img (l', t', r', b')" for l' t' r' b'
    using that ex unfolding encloses_def box by (auto simp: Suc_le_eq)
  from ex show "l < r \<and> r \<le> fst (img_size img) \<and> t < b \<and> b \<le> snd (img_size img)"
    using sorted_hd_le [OF sorted_nonzero_columns \<open>last ?xs \<in> set ?xs\<close>]
      sorted_hd_le [OF sorted_nonzero_rows \<open>last ?ys \<in> set ?ys\<close>]
    unfolding box nonzero_alpha_at_def by auto
qed

lemma crop_size: "img_size (crop img (l, t, r, b)) = (r - l, b - t)"
  by (cases "img_size img") (simp add: crop_def)

lemma crop_pix:
  "r \<le> fst (img_size img) \<Longrightarrow> b \<le> snd (img_size img) \<Longrightarrow> x < r - l \<Longrightarrow> y < b - t \<Longrightarrow>
   pix (crop img (l, t, r, b)) x y = pix img (x + l) (y + t)"
  by (cases "img_size img") (auto simp: crop_def)

text \<open>
  Claim C7. \<open>crop_transparent_png\<close> is a total function of the image it opened: it
  raises nothing on any image. On an image whose pixels all have alpha zero it returns
  the image unchanged. On an image with a pixel of non-zero alpha it returns the crop to
  a box that encloses all such pixels and lies inside every box that does: the result has
  the box's size and the image's pixels from the box's corner on.
\<close>

theorem crop_transparent_png_bbox:
  "if \<exists>x y. nonzero_alpha_at img x y
   then \<exists>l t r b.
          crop_transparent_png img = crop img (l, t, r, b)
          \<and> encloses img (l, t, r, b)
          \<and> (\<forall>l' t' r' b'. encloses img (l', t', r', b')
                \<longrightarrow> l' \<le> l \<and> t' \<le> t \<and> r \<le> r' \<and> b \<le> b')
          \<and> l < r \<and> r \<le> fst (img_size img) \<and> t < b \<and> b \<le> snd (img_size img)
          \<and> img_size (crop_transparent_png img) = (r - l, b - t)
          \<and> (\<forall>x < r - l. \<forall>y < b - t.
                pix (crop_transparent_png img) x y = pix img (x + l) (y + t))
   else crop_transparent_png img = img"
proof (cases "\<exists>x y. nonzero_alpha_at img x y")
  case False
  then have "getbbox (getchannel_A img) = None" by (simp only: getbbox_None not_False_eq_True)
  then have "crop_transparent_png img = img" by (simp add: crop_transparent_png_def)
  with False show ?thesis by simp
next
  case True
  then have "getbbox (getchannel_A img) \<noteq> None" by (simp only: getbbox_None not_not)
  then obtain l t r b where bb: "getbbox (getchannel_A img) = Some (l, t, r, b)"
    by (cases "getbbox (getchannel_A img)") auto
  then have eq: "crop_transparent_png img = crop img (l, t, r, b)"
    by (simp add: crop_transparent_png_def)
  note facts = getbbox_Some [OF bb]
  from facts(3) have "\<forall>x < r - l. \<forall>y < b - t.
                pix (crop img (l, t, r, b)) x y = pix img (x + l) (y + t)"
    by (simp add: crop_pix)
  with eq facts crop_size [of img l t r b] True show ?thesis
    by (simp only: if_True) blast
qed

theorem crop_transparent_png_bbox_witness:
  "crop_transparent_png transparent_2x2 = transparent_2x2
   \<and> img_size (crop_transparent_png one_pixel_4x3) = (1, 1)
   \<and> pix (crop_transparent_png one_pixel_4x3) 0 0 = (255, 0, 0, 255)"
proof -
  have none: "\<not> (\<exists>x y. nonzero_alpha_at transparent_2x2 x y)"
    by (simp add: nonzero_alpha_at_def transparent_2x2_def)
  have one: "nonzero_alpha_at one_pixel_4x3 x y \<longleftrightarrow> x = 2 \<and> y = 1" for x y
    by (auto simp: nonzero_alpha_at_def one_pixel_4x3_def)
  then have some: "\<exists>x y. nonzero_alpha_at one_pixel_4x3 x y" by blast
  have enc: "encloses one_pixel_4x3 (2, 1, 3, 2)"
    by (simp add: encloses_def one)
  from crop_transparent_png_bbox [of transparent_2x2] none
  have 1: "crop_transparent_png transparent_2x2 = transparent_2x2" by simp
  from crop_transparent_png_bbox [of one_pixel_4x3] some
  obtain l t r b where
    e: "encloses one_pixel_4x3 (l, t, r, b)"
    and m: "\<forall>l' t' r' b'. encloses one_pixel_4x3 (l', t', r', b')
                \<longrightarrow> l' \<le> l \<and> t' \<le> t \<and> r \<le> r' \<and> b \<le> b'"
    and sz: "img_size (crop_transparent_png one_pixel_4x3) = (r - l, b - t)"
    and px: "\<forall>x < r - l. \<forall>y < b - t.
                pix (crop_transparent_png one_pixel_4x3) x y = pix one_pixel_4x3 (x + l) (y + t)"
    by (simp only: if_True) blast
  from m enc have "2 \<le> l \<and> 1 \<le> t \<and> r \<le> 3 \<and> b \<le> 2" by blast
  moreover from e have "l \<le> 2 \<and> 2 < r \<and> t \<le> 1 \<and> 1 < b" by (simp add: encloses_def one)
  ultimately have box: "l = 2" "t = 1" "r = 3" "b = 2" by simp_all
  from sz px show ?thesis unfolding box using 1 by (simp add: one_pixel_4x3_def)
qed

section \<open>The size after enforcing the aspect ratio\<close>

lemma paste_size: "img_size (paste blend dst src) = img_size dst"
  by (simp add: paste_def)

lemma image_new_size: "img_size (image_new sz color) = sz"
  by (simp add: image_new_def)

lemma target_width_floor: "int (target_width_of h) = \<lfloor>9.8 * real h\<rfloor>"
proof -
  have "9.8 * real h = real (98 * h) / real 10" by simp
  then have "\<lfloor>9.8 * real h\<rfloor> = \<lfloor>real (98 * h) / real 10\<rfloor>" by simp
  also have "\<dots> = int (98 * h div 10)" by (rule floor_divide_of_nat_eq)
  finally show ?thesis by (simp add: target_width_of_def)
qed

lemma enforce_10_to_1_aspect_target:
  assumes "img_size img = (W, H)"
  shows "img_size (enforce_10_to_1_aspect blend img) = (target_width_of H, H)"
proof -
  consider "W = target_width_of H" | "W < target_width_of H" | "W > target_width_of H"
    by linarith
  then show ?thesis
  proof cases
    case 1
    with assms show ?thesis
      by (simp add: enforce_10_to_1_aspect_def Let_def paste_size image_new_size)
  next
    case 2
    with assms show ?thesis
      by (simp add: enforce_10_to_1_aspect_def Let_def paste_size image_new_size)
  next
    case 3
    with assms show ?thesis
      by (simp add: enforce_10_to_1_aspect_def Let_def paste_size image_new_size)
  qed
qed

text \<open>
  Claim C1. For an image of width \<open>W\<close> and height \<open>H\<close>, the result of
  \<open>enforce_10_to_1_aspect\<close> has width \<open>\<lfloor>9.8 * H\<rfloor>\<close> and height \<open>H\<close>, whether \<open>W\<close> is
  equal to, less than or greater than that width.
\<close>

theorem enforce_10_to_1_aspect_size:
  assumes "img_size img = (W, H)"
  shows "img_size (enforce_10_to_1_aspect blend img) = (nat \<lfloor>9.8 * real H\<rfloor>, H)"
proof -
  have "nat \<lfloor>9.8 * real H\<rfloor> = target_width_of H"
    using target_width_floor [of H] by simp
  with enforce_10_to_1_aspect_target [OF assms] show ?thesis by (simp only:)
qed

theorem enforce_10_to_1_aspect_size_witness:
  "img_size (enforce_10_to_1_aspect (\<lambda>dst src. dst)
      \<lparr>img_size = (49, 5), pix = (\<lambda>x y. (0, 0, 0, 255))\<rparr>) = (49, 5)
   \<and> img_size (enforce_10_to_1_aspect (\<lambda>dst src. dst)
      \<lparr>img_size = (10, 5), pix = (\<lambda>x y. (0, 0, 0, 255))\<rparr>) = (49, 5)
   \<and> img_size (enforce_10_to_1_aspect (\<lambda>dst src. dst)
      \<lparr>img_size = (100, 5), pix = (\<lambda>x y. (0, 0, 0, 255))\<rparr>) = (49, 5)"
  using
    enforce_10_to_1_aspect_size [of "\<lparr>img_size = (49, 5), pix = (\<lambda>x y. (0, 0, 0, 255))\<rparr>" 49 5 "\<lambda>dst src. dst"]
    enforce_10_to_1_aspect_size [of "\<lparr>img_size = (10, 5), pix = (\<lambda>x y. (0, 0, 0, 255))\<rparr>" 10 5 "\<lambda>dst src. dst"]
    enforce_10_to_1_aspect_size [of "\<lparr>img_size = (100, 5), pix = (\<lambda>x y. (0, 0, 0, 255))\<rparr>" 100 5 "\<lambda>dst src. dst"]
  by simp

section \<open>Model name and slug of the device record\<close>

lemma str_method_Inr: "str_method f v = Inr y \<longleftrightarrow> (\<exists>s. v = Str s \<and> y = f s)"
  by (cases v) (auto simp: str_method_def)

lemma main_row_Inr:
  assumes "main_row py_float py_round isfile row = Inr d"
  shows "\<exists>m. row ''Model'' = Some (Str m)
           \<and> slug d = ''cisco-'' @ slugify m
           \<and> model d = py_replace m ''C1300'' ''Catalyst 1300''
           \<and> part_number d = m"
  using assms unfolding main_row_def Let_def bind_result_Inr str_method_Inr row_getitem_Inr
  by (elim exE conjE) auto

lemma prefix_iff_take: "prefix old s \<longleftrightarrow> take (length old) s = old"
  unfolding prefix_def take_eq_iff_prefix by auto

lemma replace_from_no_occurrence: "\<not> py_in old s \<Longrightarrow> replace_from old new s = s"
  by (induction s) (auto simp: prefix_iff_take)

text \<open>With at most one occurrence, replacing all occurrences is replacing the first.\<close>

lemma occurrences_0: "occurrences old s = 0 \<Longrightarrow> \<not> py_in old s"
  by (induction s) (auto simp: prefix_iff_take split: if_splits)

lemma py_in_drop: "py_in old (drop k s) \<Longrightarrow> py_in old s"
proof -
  assume "py_in old (drop k s)"
  then obtain ps ss where "drop k s = ps @ old @ ss" unfolding py_in_iff by blast
  then have "s = (take k s @ ps) @ old @ ss" by (metis append_assoc append_take_drop_id)
  then show ?thesis unfolding py_in_iff by blast
qed

lemma replace_from_single:
  assumes "old \<noteq> []"
  shows "occurrences old s \<le> 1 \<Longrightarrow>
           replace_from old new s = replace_first_occurrence old new s"
proof (induction s)
  case Nil
  then show ?case by simp
next
  case (Cons c cs)
  show ?case
  proof (cases "prefix old (c # cs)")
    case True
    with Cons.prems have "occurrences old cs = 0" by simp
    then have "\<not> py_in old cs" by (rule occurrences_0)
    then have "\<not> py_in old (drop (length old - 1) cs)" using py_in_drop by blast
    then have "replace_from old new (drop (length old - 1) cs) = drop (length old - 1) cs"
      by (rule replace_from_no_occurrence)
    moreover from assms have "drop (length old) (c # cs) = drop (length old - 1) cs"
      by (cases old) simp_all
    ultimately show ?thesis using True assms by simp
  next
    case False
    with Cons show ?thesis by simp
  qed
qed

text \<open>
  Claim C6. For every row for which the body of \<open>main\<close> builds a record, the slug is
  \<^verbatim>\<open>cisco-\<close> followed by the slug of the model string as read from the row, before any
  substitution, and the displayed model is what \<^verbatim>\<open>str.replace\<close> makes of that string.
  When \<^verbatim>\<open>C1300\<close> occurs at most once in the model string, as the claim expects, that is
  the string with the first occurrence of \<^verbatim>\<open>C1300\<close> replaced by \<^verbatim>\<open>Catalyst 1300\<close>: a
  single substitution.
\<close>

theorem slug_and_display_name:
  assumes "main_row py_float py_round isfile row = Inr d"
  shows "\<exists>m. row ''Model'' = Some (Str m)
           \<and> slug d = ''cisco-'' @ slugify m
           \<and> model d = py_replace m ''C1300'' ''Catalyst 1300''
           \<and> (occurrences ''C1300'' m \<le> 1
                \<longrightarrow> model d = replace_first_occurrence ''C1300'' ''Catalyst 1300'' m)"
proof -
  from main_row_Inr [OF assms] obtain m where
    m: "row ''Model'' = Some (Str m)" and sl: "slug d = ''cisco-'' @ slugify m"
    and md: "model d = py_replace m ''C1300'' ''Catalyst 1300''"
    by blast
  have "py_replace m ''C1300'' ''Catalyst 1300'' = replace_first_occurrence ''C1300'' ''Catalyst 1300'' m"
    if "occurrences ''C1300'' m \<le> 1"
    using replace_from_single [of "''C1300''" m "''Catalyst 1300''"] that
    by (simp add: py_replace_def)
  with m sl md show ?thesis by (intro exI [of _ m]) simp
qed

lemma device_row_interfaces:
  "create_interfaces (device_row m) = Inr (interface_list False
      (py_in ''P-'' (upper m) \<or> py_in ''FP-'' (upper m)) 2 1 0 0 1 0 0 False)"
proof -
  have "create_interfaces (device_row m) =
     bind_result (oob_test (Str ''0'')) (\<lambda>has_oob.
       Inr (interface_list (lower (strip ''false'') = ''true'')
              (py_in ''P-'' (upper m) \<or> py_in ''FP-'' (upper m))
              (nat 2) (nat 1) (nat 0) (nat 0) (nat 1) (nat 0) (nat 0) has_oob))"
    by (rule create_interfaces_of_counts)
       (simp_all add: count_of_Str py_int_0 py_int_1 py_int_2 device_row_def example_row_def
          row_get_def)
  then show ?thesis by (simp add: oob_test_0 bind_result_def lower_strip_false)
qed

lemma device_row_console_ports:
  "create_console_ports (device_row m) = Inr [[(''name'', VStr ''con0''), (''type'', VStr ''rj-45'')]]"
  by (simp add: create_console_ports_def bind_result_def str_method_def row_get_def
      device_row_def example_row_def strip_def is_space_def)

lemma device_row_fields:
  "device_row m ''Model'' = Some (Str m)"
  "device_row m ''Weight (pounds)'' = Some (Str ''3.5'')"
  "device_row m ''Draw'' = Some (Str ''12.3'')"
  "device_row m ''psu0'' = Some (Str ''iec-60320-c14'')"
  by (simp_all add: device_row_def example_row_def)

lemma main_row_device_row:
  "map_sum id (\<lambda>d. (slug d, model d))
     (main_row (\<lambda>s. Some (0::int)) Inr (\<lambda>p. False) (device_row m))
   = Inr (''cisco-'' @ slugify m, py_replace m ''C1300'' ''Catalyst 1300'')"
  by (simp add: main_row_def Let_def bind_result_def row_getitem_def str_method_def
      float_of_cell_def device_row_fields device_row_interfaces device_row_console_ports)

lemma slugify_C1300_C1300: "slugify ''C1300-C1300'' = ''c1300-c1300''"
  by (simp add: slugify_def case_defs
      is_a_z_0_9_def digits_def is_dash_def strip_dashes_def)

lemma py_replace_C1300_C1300:
  "py_replace ''C1300-C1300'' ''C1300'' ''Catalyst 1300'' = ''Catalyst 1300-Catalyst 1300''"
  by (simp add: py_replace_def)

text \<open>
  With two occurrences the two differ: in the model string \<^verbatim>\<open>C1300-C1300\<close> the source
  replaces both.
\<close>

lemma display_name_two_occurrences:
  "map_sum id (\<lambda>d. (slug d, model d))
     (main_row (\<lambda>s. Some (0::int)) Inr (\<lambda>p. False) (device_row ''C1300-C1300''))
     = Inr (''cisco-c1300-c1300'', ''Catalyst 1300-Catalyst 1300'')
   \<and> replace_first_occurrence ''C1300'' ''Catalyst 1300'' ''C1300-C1300'' = ''Catalyst 1300-C1300''
   \<and> occurrences ''C1300'' ''C1300-C1300'' = 2"
  by (simp add: main_row_device_row slugify_C1300_C1300 py_replace_C1300_C1300)

lemma slugify_C1300_8P: "slugify ''C1300-8P-E-2G'' = ''c1300-8p-e-2g''"
  by (simp add: slugify_def case_defs
      is_a_z_0_9_def digits_def is_dash_def strip_dashes_def)

theorem slug_and_display_name_witness:
  "\<exists>d. main_row (\<lambda>s. Some (0::int)) Inr (\<lambda>p. False) (device_row ''C1300-8P-E-2G'') = Inr d
     \<and> slug d = ''cisco-c1300-8p-e-2g''
     \<and> model d = ''Catalyst 1300-8P-E-2G''"
proof -
  let ?row = "device_row ''C1300-8P-E-2G''"
  obtain d where r: "main_row (\<lambda>s. Some (0::int)) Inr (\<lambda>p. False) ?row = Inr d"
    using main_row_device_row [of "''C1300-8P-E-2G''"]
    by (cases "main_row (\<lambda>s. Some (0::int)) Inr (\<lambda>p. False) ?row") auto
  from slug_and_display_name [OF r] obtain m where
    m: "?row ''Model'' = Some (Str m)" and sl: "slug d = ''cisco-'' @ slugify m"
    and one: "occurrences ''C1300'' m \<le> 1
                \<longrightarrow> model d = replace_first_occurrence ''C1300'' ''Catalyst 1300'' m"
    by blast
  from m have m': "m = ''C1300-8P-E-2G''" by (simp add: device_row_fields)
  have "occurrences ''C1300'' ''C1300-8P-E-2G'' \<le> 1" by simp
  with one have "model d = replace_first_occurrence ''C1300'' ''Catalyst 1300'' ''C1300-8P-E-2G''"
    unfolding m' by blast
  with sl r show ?thesis unfolding m' by (simp add: slugify_C1300_8P)
qed

end
